theory Spec2Isabelle
  imports Complex_Main "HOL-Library.Sublist"
begin

section \<open>Python values, exceptions and the log\<close>

text \<open>
  Instants (\<^verbatim>\<open>datetime\<close>) are only compared and stored, never computed with:
  they are integers here. A float that is only carried along is a real number.
\<close>

type_synonym datetime = int

text \<open>
  The exceptions that derive from \<^verbatim>\<open>Exception\<close>, which is what every handler
  of the program catches. An \<open>exn\<close> is an exception that has a message: it is given
  with the string that \<^verbatim>\<open>str(e)\<close> returns for it, and \<open>exn_str\<close> reads it.
\<close>

datatype exn =
    AttributeError string
  | TypeError string
  | ValidationError string
  | RuntimeError string
  | Exception string

fun exn_str :: "exn \<Rightarrow> string" where
  "exn_str (AttributeError m) = m"
| "exn_str (TypeError m) = m"
| "exn_str (ValidationError m) = m"
| "exn_str (RuntimeError m) = m"
| "exn_str (Exception m) = m"

text \<open>
  \<^verbatim>\<open>str(e)\<close> is itself a call, of the exception's \<^verbatim>\<open>__str__\<close>, and a
  class may define one that raises. An exception object as a handler meets it is
  therefore either one with a message or one whose \<^verbatim>\<open>__str__\<close> raises the
  given exception; \<open>py_str_exc\<close> is \<^verbatim>\<open>str(e)\<close> with both outcomes.
\<close>

datatype py_exception =
    Printable exn
  | Unprintable py_exception

fun py_str_exc :: "py_exception \<Rightarrow> py_exception + string" where
  "py_str_exc (Printable e) = Inr (exn_str e)"
| "py_str_exc (Unprintable raised) = Inl raised"

fun is_printable :: "py_exception \<Rightarrow> bool" where
  "is_printable (Printable e) = True"
| "is_printable (Unprintable raised) = False"

text \<open>
  The messages of the interpreter quote a type or attribute name between apostrophes.
\<close>

definition quoted :: "string \<Rightarrow> string" where
  "quoted name = [CHR 0x27] @ name @ [CHR 0x27]"

definition no_attribute :: "string \<Rightarrow> string \<Rightarrow> exn" where
  "no_attribute type_name attribute =
     AttributeError (quoted type_name @ '' object has no attribute '' @ quoted attribute)"

text \<open>The dynamically typed values that cross the interfaces of the program.\<close>

datatype pyval =
    PyNone
  | PyBool bool
  | PyInt int
  | PyStr string
  | PyList "pyval list"
  | PyDict "(string \<times> pyval) list"

text \<open>
  A log line is its level and its f-string: the literal pieces and the formatted
  values, in order, not rendered. The pictograph that opens a message is given by the
  bytes of its UTF-8 encoding.
\<close>

definition alarm_clock :: string where
  "alarm_clock = [CHR 0xE2, CHR 0x8F, CHR 0xB0]"

definition check_mark :: string where
  "check_mark = [CHR 0xE2, CHR 0x9C, CHR 0x85]"

definition cross_mark :: string where
  "cross_mark = [CHR 0xE2, CHR 0x9D, CHR 0x8C]"

definition police_light :: string where
  "police_light = [CHR 0xF0, CHR 0x9F, CHR 0x9A, CHR 0xA8]"

datatype level = INFO | WARNING | ERROR

datatype fpart =
    Lit string | FNat nat | FInt int | FStr string | FOpt "string option" | FExn exn
  | FVal pyval

type_synonym log_entry = "level \<times> fpart list"

section \<open>The document store\<close>

text \<open>
  \<^verbatim>\<open>database/models.py\<close>. A collection is the list of its documents in the order
  the store returns them from an unsorted \<^verbatim>\<open>find\<close>. A field read with
  \<^verbatim>\<open>record.get(key, default)\<close> is optional: \<open>None\<close> is the absent key.
\<close>

record user_doc =
  u_id :: nat
  u_telegram_id :: string
  u_created_at :: datetime
  u_updated_at :: datetime

record session_doc =
  s_id :: nat
  s_user_id :: nat
  s_telegram_id :: string
  s_session_state :: string
  s_context :: "(string \<times> pyval) list"
  s_current_question :: int
  s_symptoms_collected :: "string list"
  s_started_at :: datetime
  s_last_activity :: datetime
  s_completed_at :: "datetime option"

record health_record =
  hr_id :: nat
  hr_telegram_id :: "string option"
  hr_symptoms :: "string list option"
  hr_risk_level :: "string option"
  hr_severity_score :: "real option"
  hr_reported_at :: "datetime option"
  hr_recommendations :: "string list option"
  hr_requires_followup :: bool
  hr_followup_date :: "datetime option"
  hr_followup_completed :: bool

record surveillance_log =
  sl_window_start :: datetime
  sl_window_end :: datetime
  sl_total_reports :: nat
  sl_alert_triggered :: bool

text \<open>
  \<open>reachable\<close> is the one way the store fails: a query on a store that does not
  answer raises in the driver.
\<close>

record database =
  reachable :: bool
  users :: "user_doc list"
  sessions :: "session_doc list"
  health_records :: "health_record list"
  surveillance_logs :: "surveillance_log list"

section \<open>The crew, as the scheduler sees it\<close>

text \<open>
  \<^verbatim>\<open>api/scheduler.py\<close> calls two methods on the object that
  \<^verbatim>\<open>get_health_crew()\<close> returns. A method is a fallible operation on the store;
  \<open>None\<close> is an object without that attribute, on which the call raises
  \<^verbatim>\<open>AttributeError\<close>. What a method raises is an \<open>exn\<close>, an exception with
  a message: the handlers of the two jobs format \<^verbatim>\<open>str(e)\<close> into a log line and
  do nothing else with it. The jobs are modelled for such exceptions only; one whose
  \<^verbatim>\<open>__str__\<close> raises would leave the handler that formats it.
\<close>

record previous_assessment =
  pa_symptoms :: "string list"
  pa_risk_level :: string
  pa_severity_score :: real
  pa_reported_at :: datetime
  pa_recommendations :: "string list"

record followup_call =
  fc_user_id :: string
  fc_telegram_id :: string
  fc_previous_assessment :: previous_assessment
  fc_followup_type :: string

type_synonym 'a store_op = "database \<Rightarrow> (exn + 'a) \<times> database"

record health_crew =
  execute_followup_check :: "(followup_call \<Rightarrow> unit store_op) option"
  run_surveillance_analysis :: "(int \<Rightarrow> pyval store_op) option"

text \<open>
  The class \<^verbatim>\<open>HealthCrew\<close> of \<^verbatim>\<open>crew/health_crew.py\<close> defines
  \<^verbatim>\<open>process_user_message\<close> and the agent and task builders, and neither of the
  two methods the scheduler calls.
\<close>

definition HealthCrew :: health_crew where
  "HealthCrew = \<lparr>execute_followup_check = None, run_surveillance_analysis = None\<rparr>"

text \<open>
  What a scheduled job runs in: the store, the log, and the trace of the calls of
  \<^verbatim>\<open>execute_followup_check\<close> that were made, in order.
\<close>

record world =
  store :: database
  logs :: "log_entry list"
  invocations :: "followup_call list"

definition log_line :: "level \<Rightarrow> fpart list \<Rightarrow> world \<Rightarrow> world" where
  "log_line lv msg w = w\<lparr>logs := logs w @ [(lv, msg)]\<rparr>"

section \<open>The follow-up sweep\<close>

text \<open>The filter of \<^verbatim>\<open>_find_followups_due\<close>: a missing date is not \<open>$lte now\<close>.\<close>

definition is_followup_due :: "datetime \<Rightarrow> health_record \<Rightarrow> bool" where
  "is_followup_due now r =
     (hr_requires_followup r = True \<and> hr_followup_completed r = False \<and>
      (case hr_followup_date r of None \<Rightarrow> False | Some d \<Rightarrow> d \<le> now))"

text \<open>
  \<^verbatim>\<open>find(filter).limit(limit)\<close> then \<^verbatim>\<open>to_list(length=limit)\<close>: no sort is
  asked for. The limit is a natural number: the driver refuses a negative length, and
  the sweep passes none.
\<close>

definition find_followups_due :: "nat \<Rightarrow> datetime \<Rightarrow> database \<Rightarrow> exn + health_record list" where
  "find_followups_due limit now d =
     (if reachable d then Inr (take limit (filter (is_followup_due now) (health_records d)))
      else Inl (Exception ''ServerSelectionTimeoutError''))"

definition or_default :: "'a option \<Rightarrow> 'a \<Rightarrow> 'a" where
  "or_default v dflt = (case v of None \<Rightarrow> dflt | Some x \<Rightarrow> x)"

definition followup_call_of :: "datetime \<Rightarrow> string \<Rightarrow> health_record \<Rightarrow> followup_call" where
  "followup_call_of now telegram_id r =
     \<lparr>fc_user_id = telegram_id,
      fc_telegram_id = telegram_id,
      fc_previous_assessment =
        \<lparr>pa_symptoms = or_default (hr_symptoms r) [],
         pa_risk_level = or_default (hr_risk_level r) ''moderate'',
         pa_severity_score = or_default (hr_severity_score r) 0,
         pa_reported_at = or_default (hr_reported_at r) now,
         pa_recommendations = or_default (hr_recommendations r) []\<rparr>,
      fc_followup_type = ''scheduled''\<rparr>"

text \<open>
  The body of the \<^verbatim>\<open>for\<close> loop for one record: the inner \<^verbatim>\<open>try\<close> with its
  \<^verbatim>\<open>continue\<close> on a record without \<^verbatim>\<open>telegram_id\<close> (absent or empty) and its
  handler, which logs and goes on.
\<close>

definition followup_error :: "health_record \<Rightarrow> exn \<Rightarrow> log_entry" where
  "followup_error r e =
     (ERROR, [Lit ''Error sending follow-up to user '', FOpt (hr_telegram_id r),
              Lit '': '', FExn e])"

definition followup_one :: "health_crew \<Rightarrow> datetime \<Rightarrow> health_record \<Rightarrow> world \<Rightarrow> world" where
  "followup_one crew now r w =
     (case hr_telegram_id r of
        None \<Rightarrow> log_line WARNING [Lit ''Skipping follow-up without telegram_id''] w
      | Some telegram_id \<Rightarrow>
          if telegram_id = [] then
            log_line WARNING [Lit ''Skipping follow-up without telegram_id''] w
          else
            (case execute_followup_check crew of
               None \<Rightarrow>
                 w\<lparr>logs := logs w @ [followup_error r
                      (no_attribute ''HealthCrew'' ''execute_followup_check'')]\<rparr>
             | Some method \<Rightarrow>
                 (case method (followup_call_of now telegram_id r) (store w) of
                    (Inl e, d) \<Rightarrow>
                      w\<lparr>store := d,
                        invocations := invocations w @ [followup_call_of now telegram_id r],
                        logs := logs w @ [followup_error r e]\<rparr>
                  | (Inr u, d) \<Rightarrow>
                      w\<lparr>store := d,
                        invocations := invocations w @ [followup_call_of now telegram_id r],
                        logs := logs w @ [(INFO, [Lit (check_mark @ '' Follow-up sent to ''),
                                                   FStr telegram_id])]\<rparr>)))"

text \<open>
  \<^verbatim>\<open>run_scheduled_followups\<close>. The batch is read once, with the default limit of
  50; the outer handler catches a failed query and a failed \<^verbatim>\<open>get_health_crew()\<close>.
  Every path ends without a \<^verbatim>\<open>return\<close> value: the result is \<^verbatim>\<open>None\<close>.

  The query is run by \<^verbatim>\<open>asyncio.run\<close>, on an event loop of its own that is
  closed when the query is done, through the client that \<^verbatim>\<open>config/mongo.py\<close>
  creates once for the process. This is one run, in a process whose client can be used
  for the query. The world a run leaves is the store, the log and the calls after it; it
  is not the state in which a later run of the same process would find the client, and
  nothing below runs the job a second time on it.
\<close>

definition run_scheduled_followups :: "exn + health_crew \<Rightarrow> datetime \<Rightarrow> world \<Rightarrow> pyval \<times> world" where
  "run_scheduled_followups get_health_crew now w0 =
     (let w = log_line INFO [Lit (alarm_clock @ '' Checking for scheduled follow-ups...'')] w0 in
      case find_followups_due 50 now (store w) of
        Inl e \<Rightarrow>
          (PyNone, log_line ERROR
             [Lit (cross_mark @ '' Error in scheduled follow-ups: ''), FExn e] w)
      | Inr records \<Rightarrow>
          if records = [] then (PyNone, log_line INFO [Lit ''No follow-ups due at this time''] w)
          else
            (let w1 = log_line INFO [Lit ''Found '', FNat (length records),
                                     Lit '' follow-ups due''] w in
             case get_health_crew of
               Inl e \<Rightarrow>
                 (PyNone, log_line ERROR
                    [Lit (cross_mark @ '' Error in scheduled follow-ups: ''), FExn e] w1)
             | Inr crew \<Rightarrow> (PyNone, fold (followup_one crew now) records w1)))"

subsection \<open>What the sweep is measured against\<close>

text \<open>
  The calls a batch gives rise to when every record that carries a
  \<^verbatim>\<open>telegram_id\<close> is served, in batch order; the records the loop skips; and the
  batch the sweep reads, the first 50 due records in store order.
\<close>

fun followup_calls :: "datetime \<Rightarrow> health_record list \<Rightarrow> followup_call list" where
  "followup_calls now [] = []"
| "followup_calls now (r # rs) =
     (case hr_telegram_id r of
        None \<Rightarrow> followup_calls now rs
      | Some t \<Rightarrow> if t = [] then followup_calls now rs
                  else followup_call_of now t r # followup_calls now rs)"

definition skipped :: "health_record \<Rightarrow> bool" where
  "skipped r = (case hr_telegram_id r of None \<Rightarrow> True | Some t \<Rightarrow> t = [])"

definition due_batch :: "datetime \<Rightarrow> database \<Rightarrow> health_record list" where
  "due_batch now d = take 50 (filter (is_followup_due now) (health_records d))"

text \<open>
  The state in which the loop starts on a batch of \<open>n\<close> records: the two lines
  logged on the way there.
\<close>

definition sweep_started :: "nat \<Rightarrow> world \<Rightarrow> world" where
  "sweep_started n w =
     log_line INFO [Lit ''Found '', FNat n, Lit '' follow-ups due'']
       (log_line INFO [Lit (alarm_clock @ '' Checking for scheduled follow-ups...'')] w)"

text \<open>
  The summary \<^verbatim>\<open>{ dispatched: int, failed: int }\<close> that the specification's
  contract \<^verbatim>\<open>runFollowUpSweep\<close> returns, as a predicate on a returned value.
\<close>

definition is_sweep_summary :: "pyval \<Rightarrow> bool" where
  "is_sweep_summary v =
     (case v of
        PyDict kv \<Rightarrow>
          (case (map_of kv ''dispatched'', map_of kv ''failed'') of
             (Some (PyInt a), Some (PyInt b)) \<Rightarrow> True
           | _ \<Rightarrow> False)
      | _ \<Rightarrow> False)"

subsection \<open>A store to run the sweep on\<close>

text \<open>
  Five records: two due ones with a user, a due one without, one already completed and
  one due later. Two notifiers: one that always sends, one that fails for user 1001.
\<close>

definition rec_a :: health_record where
  "rec_a = \<lparr>hr_id = 1, hr_telegram_id = Some ''1001'', hr_symptoms = Some [''fever''],
     hr_risk_level = Some ''high'', hr_severity_score = Some 7, hr_reported_at = Some 1,
     hr_recommendations = Some [''rest''], hr_requires_followup = True,
     hr_followup_date = Some 5, hr_followup_completed = False\<rparr>"

definition rec_b :: health_record where
  "rec_b = \<lparr>hr_id = 2, hr_telegram_id = Some ''1002'', hr_symptoms = Some [''cough''],
     hr_risk_level = None, hr_severity_score = None, hr_reported_at = None,
     hr_recommendations = None, hr_requires_followup = True,
     hr_followup_date = Some 3, hr_followup_completed = False\<rparr>"

definition rec_anon :: health_record where
  "rec_anon = rec_b\<lparr>hr_id := 3, hr_telegram_id := None, hr_followup_date := Some 4\<rparr>"

definition rec_done :: health_record where
  "rec_done = rec_a\<lparr>hr_id := 4, hr_followup_date := Some 2, hr_followup_completed := True\<rparr>"

definition rec_later :: health_record where
  "rec_later = rec_a\<lparr>hr_id := 5, hr_followup_date := Some 20\<rparr>"

definition ward :: world where
  "ward = \<lparr>store = \<lparr>reachable = True, users = [], sessions = [],
                     health_records = [rec_a, rec_done, rec_anon, rec_b, rec_later],
                     surveillance_logs = []\<rparr>,
           logs = [], invocations = []\<rparr>"

definition send_ok :: "followup_call \<Rightarrow> unit store_op" where
  "send_ok c d = (Inr (), d)"

definition send_flaky :: "followup_call \<Rightarrow> unit store_op" where
  "send_flaky c d =
     (if fc_telegram_id c = ''1001'' then (Inl (Exception ''timed out''), d) else (Inr (), d))"

definition sending_crew :: health_crew where
  "sending_crew = \<lparr>execute_followup_check = Some send_ok, run_surveillance_analysis = None\<rparr>"

definition flaky_crew :: health_crew where
  "flaky_crew = \<lparr>execute_followup_check = Some send_flaky, run_surveillance_analysis = None\<rparr>"

section \<open>The surveillance job\<close>

text \<open>
  Truth value and \<^verbatim>\<open>.get\<close> of a dynamically typed value: only a dict has
  \<^verbatim>\<open>get\<close>.
\<close>

fun py_truthy :: "pyval \<Rightarrow> bool" where
  "py_truthy PyNone = False"
| "py_truthy (PyBool b) = b"
| "py_truthy (PyInt i) = (i \<noteq> 0)"
| "py_truthy (PyStr s) = (s \<noteq> [])"
| "py_truthy (PyList xs) = (xs \<noteq> [])"
| "py_truthy (PyDict kv) = (kv \<noteq> [])"

fun py_type_name :: "pyval \<Rightarrow> string" where
  "py_type_name PyNone = ''NoneType''"
| "py_type_name (PyBool b) = ''bool''"
| "py_type_name (PyInt i) = ''int''"
| "py_type_name (PyStr s) = ''str''"
| "py_type_name (PyList xs) = ''list''"
| "py_type_name (PyDict kv) = ''dict''"

fun py_get :: "pyval \<Rightarrow> string \<Rightarrow> pyval \<Rightarrow> exn + pyval" where
  "py_get (PyDict kv) k dflt = Inr (case map_of kv k of None \<Rightarrow> dflt | Some v \<Rightarrow> v)"
| "py_get v k dflt = Inl (no_attribute (py_type_name v) ''get'')"

text \<open>
  \<^verbatim>\<open>run_scheduled_surveillance\<close>: one \<^verbatim>\<open>try\<close> around the crew's analysis
  and the reading of its result; the handler logs. The function itself touches no
  collection.
\<close>

definition surveillance_error :: "exn \<Rightarrow> world \<Rightarrow> pyval \<times> world" where
  "surveillance_error e w =
     (PyNone, log_line ERROR
        [Lit (cross_mark @ '' Error in scheduled surveillance: ''), FExn e] w)"

definition run_scheduled_surveillance :: "exn + health_crew \<Rightarrow> int \<Rightarrow> world \<Rightarrow> pyval \<times> world" where
  "run_scheduled_surveillance get_health_crew spike_window_hours w0 =
     (let w = log_line INFO
                [Lit (alarm_clock @ '' Running scheduled surveillance analysis...'')] w0 in
      case get_health_crew of
        Inl e \<Rightarrow> surveillance_error e w
      | Inr crew \<Rightarrow>
          (case run_surveillance_analysis crew of
             None \<Rightarrow>
               surveillance_error (no_attribute ''HealthCrew'' ''run_surveillance_analysis'') w
           | Some method \<Rightarrow>
               (case method spike_window_hours (store w) of
                  (Inl e, d) \<Rightarrow> surveillance_error e (w\<lparr>store := d\<rparr>)
                | (Inr result, d) \<Rightarrow>
                    (case py_get result ''escalation'' PyNone of
                       Inl e \<Rightarrow> surveillance_error e (w\<lparr>store := d\<rparr>)
                     | Inr escalation \<Rightarrow>
                         if py_truthy escalation then
                           (PyNone, log_line WARNING
                              [Lit (police_light @
                                 '' Escalation detected in scheduled surveillance!'')]
                              (w\<lparr>store := d\<rparr>))
                         else
                           (PyNone, log_line INFO
                              [Lit (check_mark @
                                 '' Scheduled surveillance complete - No anomalies'')]
                              (w\<lparr>store := d\<rparr>))))))"

section \<open>The job scheduler\<close>

text \<open>
  \<^verbatim>\<open>start_scheduler\<close> and \<^verbatim>\<open>shutdown_scheduler\<close> on the module's global
  \<^verbatim>\<open>scheduler\<close>. A job is added with \<^verbatim>\<open>replace_existing=True\<close>: a job of the
  same id gives way to it.
\<close>

datatype job_func = Run_scheduled_surveillance | Run_scheduled_followups

record job =
  job_func :: job_func
  job_minutes :: int
  job_id :: string
  job_name :: string

record background_scheduler =
  jobs :: "job list"
  running :: bool

record process =
  scheduler :: "background_scheduler option"
  process_logs :: "log_entry list"
  atexit_registered :: nat

definition add_job :: "job \<Rightarrow> background_scheduler \<Rightarrow> background_scheduler" where
  "add_job j s = s\<lparr>jobs := filter (\<lambda>k. job_id k \<noteq> job_id j) (jobs s) @ [j]\<rparr>"

definition start_scheduler :: "int \<Rightarrow> process \<Rightarrow> process" where
  "start_scheduler surveillance_interval_minutes p =
     (case scheduler p of
        Some running_one \<Rightarrow>
          p\<lparr>process_logs := process_logs p @ [(WARNING, [Lit ''Scheduler already running''])]\<rparr>
      | None \<Rightarrow>
          (let s0 = \<lparr>jobs = [], running = False\<rparr>;
               s1 = add_job \<lparr>job_func = Run_scheduled_surveillance,
                              job_minutes = surveillance_interval_minutes,
                              job_id = ''surveillance_job'',
                              job_name = ''Run surveillance analysis''\<rparr> s0;
               s2 = add_job \<lparr>job_func = Run_scheduled_followups,
                              job_minutes = 15,
                              job_id = ''followup_job'',
                              job_name = ''Check scheduled follow-ups''\<rparr> s1;
               s3 = s2\<lparr>running := True\<rparr>
           in p\<lparr>scheduler := Some s3,
                process_logs := process_logs p @
                  [(INFO, [Lit (check_mark @ '' Scheduler started:'')]),
                   (INFO, [Lit ''   - Surveillance: Every '',
                           FInt surveillance_interval_minutes, Lit '' minutes'']),
                   (INFO, [Lit ''   - Follow-ups: Every 15 minutes''])],
                atexit_registered := Suc (atexit_registered p)\<rparr>))"

definition shutdown_scheduler :: "process \<Rightarrow> process" where
  "shutdown_scheduler p =
     (case scheduler p of
        None \<Rightarrow> p
      | Some s \<Rightarrow> p\<lparr>scheduler := None,
                      process_logs := process_logs p @
                        [(INFO, [Lit (check_mark @ '' Scheduler shut down'')])]\<rparr>)"

definition fresh_process :: process where
  "fresh_process = \<lparr>scheduler = None, process_logs = [], atexit_registered = 0\<rparr>"

section \<open>Sessions\<close>

text \<open>
  The store operations of \<^verbatim>\<open>api/telegram_webhook.py\<close>. \<^verbatim>\<open>insert_one\<close> gives
  the document an \<^verbatim>\<open>_id\<close> that no document of the collection has;
  \<^verbatim>\<open>find_one\<close> returns the first match, or with
  \<^verbatim>\<open>sort=[("started_at", -1)]\<close> the match started last.
\<close>

definition new_object_id :: "nat list \<Rightarrow> nat" where
  "new_object_id ids = Suc (foldr max ids 0)"

definition find_user :: "string \<Rightarrow> database \<Rightarrow> user_doc option" where
  "find_user telegram_id d = find (\<lambda>u. u_telegram_id u = telegram_id) (users d)"

definition find_user_by_id :: "nat \<Rightarrow> database \<Rightarrow> user_doc option" where
  "find_user_by_id i d = find (\<lambda>u. u_id u = i) (users d)"

definition insert_user :: "string \<Rightarrow> datetime \<Rightarrow> database \<Rightarrow> nat \<times> database" where
  "insert_user telegram_id now d =
     (let i = new_object_id (map u_id (users d)) in
      (i, d\<lparr>users := users d @ [\<lparr>u_id = i, u_telegram_id = telegram_id,
                                    u_created_at = now, u_updated_at = now\<rparr>]\<rparr>))"

fun latest_started :: "session_doc list \<Rightarrow> session_doc option" where
  "latest_started [] = None"
| "latest_started (s # ss) =
     (case latest_started ss of
        None \<Rightarrow> Some s
      | Some s' \<Rightarrow> if s_started_at s < s_started_at s' then Some s' else Some s)"

definition find_active_session :: "nat \<Rightarrow> database \<Rightarrow> session_doc option" where
  "find_active_session user_id d =
     latest_started
       (filter (\<lambda>s. s_user_id s = user_id \<and> s_session_state s \<noteq> ''COMPLETED'') (sessions d))"

definition fetch_active_session :: "string \<Rightarrow> database \<Rightarrow> session_doc option" where
  "fetch_active_session telegram_id d =
     latest_started
       (filter (\<lambda>s. s_telegram_id s = telegram_id \<and> s_session_state s \<noteq> ''completed'')
          (sessions d))"

definition find_session_by_id :: "nat \<Rightarrow> database \<Rightarrow> session_doc option" where
  "find_session_by_id i d = find (\<lambda>s. s_id s = i) (sessions d)"

definition new_session_doc :: "nat \<Rightarrow> nat \<Rightarrow> string \<Rightarrow> datetime \<Rightarrow> session_doc" where
  "new_session_doc i user_id telegram_id now =
     \<lparr>s_id = i, s_user_id = user_id, s_telegram_id = telegram_id, s_session_state = ''initial'',
      s_context = [], s_current_question = 0, s_symptoms_collected = [],
      s_started_at = now, s_last_activity = now, s_completed_at = None\<rparr>"

definition insert_session :: "nat \<Rightarrow> string \<Rightarrow> datetime \<Rightarrow> database \<Rightarrow> nat \<times> database" where
  "insert_session user_id telegram_id now d =
     (let i = new_object_id (map s_id (sessions d)) in
      (i, d\<lparr>sessions := sessions d @ [new_session_doc i user_id telegram_id now]\<rparr>))"

text \<open>
  \<^verbatim>\<open>Session(**session_dict)\<close> validates \<^verbatim>\<open>session_state\<close> against the enum
  \<^verbatim>\<open>SessionState\<close>; \<^verbatim>\<open>dict(None)\<close> raises.
\<close>

definition SessionState_values :: "string list" where
  "SessionState_values =
     [''initial'', ''in_triage'', ''awaiting_response'', ''completed'', ''follow_up'']"

definition Session :: "session_doc option \<Rightarrow> exn + session_doc" where
  "Session doc =
     (case doc of
        None \<Rightarrow> Inl (TypeError (quoted ''NoneType'' @ '' object is not iterable''))
      | Some s \<Rightarrow>
          if s_session_state s \<in> set SessionState_values then Inr s
          else Inl (ValidationError ''session_state''))"

definition ensure_active_session :: "string \<Rightarrow> datetime \<Rightarrow> database \<Rightarrow> (exn + session_doc) \<times> database" where
  "ensure_active_session telegram_id now d0 =
     (let (user, d1) =
        (case find_user telegram_id d0 of
           Some u \<Rightarrow> (Some u, d0)
         | None \<Rightarrow>
             (let (inserted_id, d) = insert_user telegram_id now d0
              in (find_user_by_id inserted_id d, d)))
      in case user of
           None \<Rightarrow> (Inl (TypeError (quoted ''NoneType'' @ '' object is not subscriptable'')), d1)
         | Some u \<Rightarrow>
             (case find_active_session (u_id u) d1 of
                Some s \<Rightarrow> (Session (Some s), d1)
              | None \<Rightarrow>
                  (let (inserted_id, d2) = insert_session (u_id u) telegram_id now d1
                   in (Session (find_session_by_id inserted_id d2), d2))))"

subsection \<open>The same function, one awaited operation at a time\<close>

text \<open>
  Every \<^verbatim>\<open>await\<close> of \<^verbatim>\<open>ensure_active_session\<close> is one operation on the
  store, and between two of them the coroutine runs alone. A task is the point the
  coroutine has reached, with its local variables; a step is the awaited operation and
  the code up to the next \<^verbatim>\<open>await\<close>. Two coroutines of the event loop take their
  steps in some order of turns.
\<close>

datatype task =
    Find_user string
  | Insert_user string
  | Refetch_user string nat
  | Find_session string nat
  | Insert_session string nat
  | Refetch_session nat
  | Returned "exn + session_doc"

fun step :: "datetime \<Rightarrow> task \<Rightarrow> database \<Rightarrow> task \<times> database" where
  "step now (Find_user t) d =
     (case find_user t d of
        Some u \<Rightarrow> (Find_session t (u_id u), d)
      | None \<Rightarrow> (Insert_user t, d))"
| "step now (Insert_user t) d =
     (let (inserted_id, d') = insert_user t now d in (Refetch_user t inserted_id, d'))"
| "step now (Refetch_user t i) d =
     (case find_user_by_id i d of
        None \<Rightarrow> (Returned (Inl (TypeError (quoted ''NoneType'' @ '' object is not subscriptable''))), d)
      | Some u \<Rightarrow> (Find_session t (u_id u), d))"
| "step now (Find_session t user_id) d =
     (case find_active_session user_id d of
        Some s \<Rightarrow> (Returned (Session (Some s)), d)
      | None \<Rightarrow> (Insert_session t user_id, d))"
| "step now (Insert_session t user_id) d =
     (let (inserted_id, d') = insert_session user_id t now d in (Refetch_session inserted_id, d'))"
| "step now (Refetch_session i) d = (Returned (Session (find_session_by_id i d)), d)"
| "step now (Returned r) d = (Returned r, d)"

fun run_alone :: "datetime \<Rightarrow> nat \<Rightarrow> task \<Rightarrow> database \<Rightarrow> task \<times> database" where
  "run_alone now 0 a d = (a, d)"
| "run_alone now (Suc n) a d = (let (a', d') = step now a d in run_alone now n a' d')"

fun run_schedule :: "datetime \<Rightarrow> bool list \<Rightarrow> task \<Rightarrow> task \<Rightarrow> database \<Rightarrow> task \<times> task \<times> database" where
  "run_schedule now [] a b d = (a, b, d)"
| "run_schedule now (True # turns) a b d =
     (let (a', d') = step now a d in run_schedule now turns a' b d')"
| "run_schedule now (False # turns) a b d =
     (let (b', d') = step now b d in run_schedule now turns a b' d')"

subsection \<open>Open sessions\<close>

text \<open>
  A session is open when its state is not the completed one, under either spelling
  (\<^verbatim>\<open>SessionState.COMPLETED\<close> is \<^verbatim>\<open>"completed"\<close>; the query of
  \<^verbatim>\<open>ensure_active_session\<close> compares with \<^verbatim>\<open>"COMPLETED"\<close>). The invariant is
  on the owning user: the user document the function finds or creates.
\<close>

definition open_session :: "session_doc \<Rightarrow> bool" where
  "open_session s = (s_session_state s \<noteq> ''COMPLETED'' \<and> s_session_state s \<noteq> ''completed'')"

definition open_sessions_of :: "nat \<Rightarrow> database \<Rightarrow> session_doc list" where
  "open_sessions_of user_id d = filter (\<lambda>s. s_user_id s = user_id \<and> open_session s) (sessions d)"

definition at_most_one_open :: "database \<Rightarrow> bool" where
  "at_most_one_open d = list_all (\<lambda>s. length (open_sessions_of (s_user_id s) d) \<le> 1) (sessions d)"

definition session_owner :: "string \<Rightarrow> database \<Rightarrow> nat" where
  "session_owner telegram_id d =
     (case find_user telegram_id d of
        Some u \<Rightarrow> u_id u
      | None \<Rightarrow> new_object_id (map u_id (users d)))"

fun serve_all :: "(string \<times> datetime) list \<Rightarrow> database \<Rightarrow> database" where
  "serve_all [] d = d"
| "serve_all ((telegram_id, now) # calls) d =
     serve_all calls (snd (ensure_active_session telegram_id now d))"

subsection \<open>Stores to run it on\<close>

definition office :: database where
  "office = \<lparr>reachable = True,
             users = [\<lparr>u_id = 1, u_telegram_id = ''7'', u_created_at = 0, u_updated_at = 0\<rparr>],
             sessions = [], health_records = [], surveillance_logs = []\<rparr>"

definition empty_store :: database where
  "empty_store = \<lparr>reachable = True, users = [], sessions = [], health_records = [],
                  surveillance_logs = []\<rparr>"

definition session_5 :: session_doc where
  "session_5 = \<lparr>s_id = 1, s_user_id = 1, s_telegram_id = ''7'', s_session_state = ''in_triage'',
      s_context = [], s_current_question = 1, s_symptoms_collected = [''fever''],
      s_started_at = 5, s_last_activity = 5, s_completed_at = None\<rparr>"

definition office_busy :: database where
  "office_busy = office\<lparr>sessions := [session_5]\<rparr>"

definition turns_8 :: "bool list" where
  "turns_8 = [True, False, True, False, True, False, True, False]"

definition turns_12 :: "bool list" where
  "turns_12 = turns_8 @ [True, False, True, False]"

subsection \<open>Completing a session\<close>

text \<open>
  Modelled from the spec: the operation \<^verbatim>\<open>complete\<close> of the SessionManager. No file
  of the source defines it, and none sets \<^verbatim>\<open>completed_at\<close>. The specification
  has it stamp \<^verbatim>\<open>completed_at\<close>, persist the state with an updated
  \<^verbatim>\<open>last_activity\<close>, and be a no-op, not an error, on a session that is already
  COMPLETED. The completed state is the value of \<^verbatim>\<open>SessionState.COMPLETED\<close>.
\<close>

definition complete_session :: "datetime \<Rightarrow> session_doc \<Rightarrow> exn + session_doc" where
  "complete_session now s =
     (if s_session_state s = ''completed'' then Inr s
      else Inr (s\<lparr>s_session_state := ''completed'', s_completed_at := Some now,
                 s_last_activity := now\<rparr>))"

section \<open>Processing a user message\<close>

text \<open>
  \<^verbatim>\<open>HealthCrew.process_user_message\<close> of \<^verbatim>\<open>crew/health_crew.py\<close>. Its
  arguments are untyped at run time: they are values of any of the types of
  \<open>pyval\<close>. The crew's \<^verbatim>\<open>kickoff\<close> is the function's one collaborator: it
  returns a result or raises any exception, one whose \<^verbatim>\<open>__str__\<close> raises
  included. Of a result the function reads \<^verbatim>\<open>str(result.raw)\<close> when there is such
  an attribute and \<^verbatim>\<open>str(result)\<close> otherwise, and either may raise. The log lines
  of the function have no effect on what it returns and are left out, but for the
  evaluation of \<^verbatim>\<open>str(e)\<close> in the handler's.
\<close>

record crew_inputs =
  ci_telegram_id :: pyval
  ci_message :: pyval
  ci_user_name :: pyval
  ci_timestamp :: string
  ci_session_data :: "fpart list"
  ci_conversation_history :: string
  ci_language :: pyval

record crew_result =
  cr_raw :: "(py_exception + string) option"
  cr_str :: "py_exception + string"

text \<open>
  \<^verbatim>\<open>len\<close>, the slice \<^verbatim>\<open>[-5:]\<close> and \<^verbatim>\<open>"\n".join\<close>, each raising
  \<^verbatim>\<open>TypeError\<close> on a value it does not apply to, with the interpreter's
  message. A string is a sequence of one-character strings. (A dict refuses the slice as
  a key with \<^verbatim>\<open>TypeError\<close>; an interpreter from 3.12 on raises
  \<^verbatim>\<open>KeyError\<close> there instead, an \<^verbatim>\<open>Exception\<close> all the same.)
\<close>

fun py_len :: "pyval \<Rightarrow> exn + nat" where
  "py_len (PyStr s) = Inr (length s)"
| "py_len (PyList xs) = Inr (length xs)"
| "py_len (PyDict kv) = Inr (length kv)"
| "py_len v = Inl (TypeError (''object of type '' @ quoted (py_type_name v) @ '' has no len()''))"

fun py_last5 :: "pyval \<Rightarrow> exn + pyval" where
  "py_last5 (PyStr s) = Inr (PyStr (drop (length s - 5) s))"
| "py_last5 (PyList xs) = Inr (PyList (drop (length xs - 5) xs))"
| "py_last5 (PyDict kv) = Inl (TypeError (''unhashable type: '' @ quoted ''slice''))"
| "py_last5 v = Inl (TypeError (quoted (py_type_name v) @ '' object is not subscriptable''))"

fun nat_digits :: "nat \<Rightarrow> string" where
  "nat_digits n =
     (if n < 10 then [''0123456789'' ! n]
      else nat_digits (n div 10) @ [''0123456789'' ! (n mod 10)])"

declare nat_digits.simps [simp del]

fun str_items :: "nat \<Rightarrow> pyval list \<Rightarrow> exn + string list" where
  "str_items i [] = Inr []"
| "str_items i (PyStr s # rest) =
     (case str_items (Suc i) rest of Inl e \<Rightarrow> Inl e | Inr ss \<Rightarrow> Inr (s # ss))"
| "str_items i (v # rest) =
     Inl (TypeError (''sequence item '' @ nat_digits i @ '': expected str instance, '' @
                     py_type_name v @ '' found''))"

fun intercalate_newline :: "string list \<Rightarrow> string" where
  "intercalate_newline [] = []"
| "intercalate_newline [s] = s"
| "intercalate_newline (s # t # rest) = s @ [CHR 0x0A] @ intercalate_newline (t # rest)"

definition join_newline :: "pyval list \<Rightarrow> exn + string" where
  "join_newline xs =
     (case str_items 0 xs of Inl e \<Rightarrow> Inl e | Inr ss \<Rightarrow> Inr (intercalate_newline ss))"

fun py_join_newline :: "pyval \<Rightarrow> exn + string" where
  "py_join_newline (PyList xs) = join_newline xs"
| "py_join_newline (PyStr s) = Inr (intercalate_newline (map (\<lambda>c. [c]) s))"
| "py_join_newline v = Inl (TypeError ''can only join an iterable'')"

text \<open>
  The three pieces of the \<^verbatim>\<open>try\<close> block before the call: the session line (which
  raises on a true value that is not a dict), the history text, and the user name.
\<close>

definition format_session :: "pyval \<Rightarrow> exn + fpart list" where
  "format_session session_data =
     (if py_truthy session_data then
        (case py_get session_data ''session_id'' (PyStr ''N/A'') of
           Inl e \<Rightarrow> Inl e
         | Inr session_id \<Rightarrow>
             (case py_get session_data ''state'' (PyStr ''initial'') of
                Inl e \<Rightarrow> Inl e
              | Inr state \<Rightarrow>
                  Inr [Lit ''Session ID: '', FVal session_id, Lit '', State: '', FVal state]))
      else Inr [Lit ''No previous session''])"

definition format_history :: "pyval \<Rightarrow> exn + string" where
  "format_history conversation_history =
     (if py_truthy conversation_history then
        (case py_len conversation_history of
           Inl e \<Rightarrow> Inl e
         | Inr n \<Rightarrow>
             if n > 0 then
               (case py_last5 conversation_history of
                  Inl e \<Rightarrow> Inl e
                | Inr recent_history \<Rightarrow> py_join_newline recent_history)
             else Inr ''No previous conversation'')
      else Inr ''No previous conversation'')"

definition user_name_of :: "pyval \<Rightarrow> pyval" where
  "user_name_of session_data =
     (case session_data of
        PyDict kv \<Rightarrow>
          if kv = [] then PyStr ''User''
          else
            (case (case map_of kv ''context'' of None \<Rightarrow> PyDict [] | Some c \<Rightarrow> c) of
               PyDict ctx \<Rightarrow>
                 (case map_of ctx ''user_name'' of None \<Rightarrow> PyStr ''User'' | Some n \<Rightarrow> n)
             | other \<Rightarrow> PyStr ''User'')
      | other \<Rightarrow> PyStr ''User'')"

text \<open>
  The text of a result: \<^verbatim>\<open>str(result.raw) if hasattr(result, 'raw') else str(result)\<close>.
\<close>

definition result_text :: "crew_result \<Rightarrow> py_exception + string" where
  "result_text result = (case cr_raw result of Some raw \<Rightarrow> raw | None \<Rightarrow> cr_str result)"

text \<open>
  The \<^verbatim>\<open>try\<close> block: its value, or the exception that ends it. The operations of
  the block itself raise exceptions with a message.
\<close>

definition process_body :: "(crew_inputs \<Rightarrow> py_exception + crew_result) \<Rightarrow> string \<Rightarrow> pyval \<Rightarrow> pyval \<Rightarrow> pyval \<Rightarrow> pyval \<Rightarrow> pyval \<Rightarrow> py_exception + pyval" where
  "process_body kickoff now_iso telegram_id message session_data conversation_history language =
     (case format_session session_data of
        Inl e \<Rightarrow> Inl (Printable e)
      | Inr session_info \<Rightarrow>
          (case format_history conversation_history of
             Inl e \<Rightarrow> Inl (Printable e)
           | Inr history_text \<Rightarrow>
               (case kickoff \<lparr>ci_telegram_id = telegram_id, ci_message = message,
                              ci_user_name = user_name_of session_data,
                              ci_timestamp = now_iso, ci_session_data = session_info,
                              ci_conversation_history = history_text,
                              ci_language = language\<rparr> of
                  Inl e \<Rightarrow> Inl e
                | Inr result \<Rightarrow>
                    (case result_text result of
                       Inl e \<Rightarrow> Inl e
                     | Inr text \<Rightarrow>
                         Inr (PyDict [(''status'', PyStr ''success''),
                                      (''result'', PyStr text)])))))"

text \<open>
  The function with its handler \<^verbatim>\<open>except Exception as e\<close>. The handler evaluates
  \<^verbatim>\<open>str(e)\<close> for its log line (line 382) and again for the error dict (line 389),
  outside any \<^verbatim>\<open>try\<close>: when that raises, the exception it raises leaves the
  function. \<open>Inl\<close> is an exception that propagates to the caller. The exceptions
  of the model are those deriving from \<^verbatim>\<open>Exception\<close>.
\<close>

definition process_user_message :: "(crew_inputs \<Rightarrow> py_exception + crew_result) \<Rightarrow> string \<Rightarrow> pyval \<Rightarrow> pyval \<Rightarrow> pyval \<Rightarrow> pyval \<Rightarrow> pyval \<Rightarrow> py_exception + pyval" where
  "process_user_message kickoff now_iso telegram_id message session_data conversation_history
       language =
     (case process_body kickoff now_iso telegram_id message session_data conversation_history
             language of
        Inr reply \<Rightarrow> Inr reply
      | Inl e \<Rightarrow>
          (case py_str_exc e of
             Inl raised_by_str \<Rightarrow> Inl raised_by_str
           | Inr error_text \<Rightarrow>
               Inr (PyDict [(''status'', PyStr ''error''), (''error'', PyStr error_text)])))"

text \<open>
  What the crew may be assumed to do for the function to contain it: every exception it
  raises, and every exception the text of its result raises, has a message.
\<close>

definition crew_printable :: "py_exception + crew_result \<Rightarrow> bool" where
  "crew_printable outcome =
     (case outcome of
        Inl e \<Rightarrow> is_printable e
      | Inr result \<Rightarrow> (case result_text result of Inl e \<Rightarrow> is_printable e | Inr text \<Rightarrow> True))"

text \<open>
  Three crews to call it with: one that answers, one that is rate limited, and one that
  raises an exception whose \<^verbatim>\<open>__str__\<close> raises \<^verbatim>\<open>RuntimeError\<close>.
\<close>

definition kickoff_echo :: "crew_inputs \<Rightarrow> py_exception + crew_result" where
  "kickoff_echo inputs =
     Inr \<lparr>cr_raw = Some (Inr (ci_conversation_history inputs)), cr_str = Inr ''CrewOutput''\<rparr>"

definition kickoff_rate_limited :: "crew_inputs \<Rightarrow> py_exception + crew_result" where
  "kickoff_rate_limited inputs = Inl (Printable (Exception ''rate limit exceeded''))"

definition kickoff_unprintable :: "crew_inputs \<Rightarrow> py_exception + crew_result" where
  "kickoff_unprintable inputs =
     Inl (Unprintable (Printable (RuntimeError ''__str__ failed'')))"


section \<open>Properties of the follow-up sweep\<close>

lemmas example_defs = rec_a_def rec_b_def rec_anon_def rec_done_def rec_later_def ward_def
  send_ok_def send_flaky_def sending_crew_def flaky_crew_def HealthCrew_def

lemmas sweep_defs = run_scheduled_followups_def find_followups_due_def is_followup_due_def
  followup_one_def followup_error_def followup_call_of_def or_default_def log_line_def Let_def

lemma followup_one_invocations:
  "execute_followup_check crew = Some m \<Longrightarrow>
   invocations (followup_one crew now r w) = invocations w @ followup_calls now [r]"
  by (simp add: followup_one_def log_line_def split: option.splits sum.splits prod.splits)

lemma followup_calls_append:
  "followup_calls now (xs @ ys) = followup_calls now xs @ followup_calls now ys"
  by (induction xs) (simp_all split: option.splits)

lemma fold_followup_invocations:
  "execute_followup_check crew = Some m \<Longrightarrow>
   invocations (fold (followup_one crew now) rs w) = invocations w @ followup_calls now rs"
proof (induction rs arbitrary: w)
  case Nil
  then show ?case by simp
next
  case (Cons r rs)
  have "invocations (fold (followup_one crew now) (r # rs) w)
        = invocations (followup_one crew now r w) @ followup_calls now rs"
    using Cons by simp
  also have "\<dots> = (invocations w @ followup_calls now [r]) @ followup_calls now rs"
    using Cons.prems by (simp only: followup_one_invocations)
  also have "\<dots> = invocations w @ followup_calls now (r # rs)"
    using followup_calls_append [of now "[r]" rs] by simp
  finally show ?case .
qed

lemma fold_followup_no_method:
  "execute_followup_check crew = None \<Longrightarrow>
   invocations (fold (followup_one crew now) rs w) = invocations w \<and>
   store (fold (followup_one crew now) rs w) = store w"
  by (induction rs arbitrary: w)
     (simp_all add: followup_one_def log_line_def split: option.splits)

lemma followup_one_store:
  "execute_followup_check crew = Some m \<Longrightarrow> (\<And>c d. snd (m c d) = d) \<Longrightarrow>
   store (followup_one crew now r w) = store w"
  by (auto simp add: followup_one_def log_line_def split: option.splits sum.splits prod.splits)
     (metis snd_conv)+

lemma fold_followup_store:
  "execute_followup_check crew = Some m \<Longrightarrow> (\<And>c d. snd (m c d) = d) \<Longrightarrow>
   store (fold (followup_one crew now) rs w) = store w"
  by (induction rs arbitrary: w) (simp_all add: followup_one_store)

lemma followup_one_skipped:
  "skipped r \<Longrightarrow>
   followup_one crew now r v =
     log_line WARNING [Lit ''Skipping follow-up without telegram_id''] v"
  by (simp add: followup_one_def skipped_def split: option.splits)

lemma followup_one_no_method:
  "hr_telegram_id r = Some t \<Longrightarrow> t \<noteq> [] \<Longrightarrow> execute_followup_check crew = None \<Longrightarrow>
   followup_one crew now r v =
     log_line ERROR [Lit ''Error sending follow-up to user '', FOpt (Some t), Lit '': '',
                     FExn (no_attribute ''HealthCrew'' ''execute_followup_check'')] v"
  by (simp add: followup_one_def followup_error_def log_line_def)

lemma followup_one_called:
  "hr_telegram_id r = Some t \<Longrightarrow> t \<noteq> [] \<Longrightarrow> execute_followup_check crew = Some m \<Longrightarrow>
   invocations (followup_one crew now r v) = invocations v @ [followup_call_of now t r] \<and>
   store (followup_one crew now r v) = snd (m (followup_call_of now t r) (store v)) \<and>
   logs (followup_one crew now r v) = logs v @
     [case fst (m (followup_call_of now t r) (store v)) of
        Inl e \<Rightarrow>
          (ERROR, [Lit ''Error sending follow-up to user '', FOpt (Some t), Lit '': '', FExn e])
      | Inr u \<Rightarrow> (INFO, [Lit (check_mark @ '' Follow-up sent to ''), FStr t])]"
  by (simp add: followup_one_def followup_error_def split: prod.splits sum.splits)

lemma store_log_line [simp]: "store (log_line lv msg w) = store w"
  and invocations_log_line [simp]: "invocations (log_line lv msg w) = invocations w"
  and logs_log_line [simp]: "logs (log_line lv msg w) = logs w @ [(lv, msg)]"
  by (simp_all add: log_line_def)

lemma find_followups_due_reachable:
  "reachable d \<Longrightarrow> find_followups_due 50 now d = Inr (due_batch now d)"
  by (simp add: find_followups_due_def due_batch_def)

lemma sweep_returns_None: "fst (run_scheduled_followups gc now w) = PyNone"
  by (simp add: run_scheduled_followups_def Let_def split: sum.splits)

lemma sweep_world:
  assumes "reachable (store w)"
  shows "snd (run_scheduled_followups (Inr crew) now w) =
     (if due_batch now (store w) = [] then
        log_line INFO [Lit ''No follow-ups due at this time'']
          (log_line INFO [Lit (alarm_clock @ '' Checking for scheduled follow-ups...'')] w)
      else fold (followup_one crew now) (due_batch now (store w))
        (log_line INFO [Lit ''Found '', FNat (length (due_batch now (store w))),
                        Lit '' follow-ups due'']
          (log_line INFO [Lit (alarm_clock @ '' Checking for scheduled follow-ups...'')] w)))"
  using assms
  by (simp add: run_scheduled_followups_def Let_def find_followups_due_reachable)

lemma sweep_invocations:
  assumes "reachable (store w)" and "execute_followup_check crew = Some m"
  shows "invocations (snd (run_scheduled_followups (Inr crew) now w)) =
         invocations w @ followup_calls now (due_batch now (store w))"
proof (cases "due_batch now (store w) = []")
  case True
  then show ?thesis using assms(1) by (simp add: sweep_world)
next
  case False
  then show ?thesis
    using assms(1) fold_followup_invocations [OF assms(2)] by (simp add: sweep_world)
qed

lemma sweep_store:
  assumes "reachable (store w)" and "execute_followup_check crew = Some m"
    and "\<And>c d. snd (m c d) = d"
  shows "store (snd (run_scheduled_followups (Inr crew) now w)) = store w"
proof (cases "due_batch now (store w) = []")
  case True
  then show ?thesis using assms(1) by (simp add: sweep_world)
next
  case False
  then show ?thesis
    using assms(1) fold_followup_store [OF assms(2), of now] assms(3)
    by (simp add: sweep_world)
qed

lemma ward_batch: "due_batch 10 (store ward) = [rec_a, rec_anon, rec_b]"
  by (simp add: due_batch_def example_defs is_followup_due_def)

text \<open>
  Claim C6. One sweep reads exactly the records with
  \<^verbatim>\<open>requires_followup = true\<close>, \<^verbatim>\<open>followup_completed = false\<close> and
  \<^verbatim>\<open>followup_date <= now\<close>, at most \<open>limit\<close> of them (50 in the sweep): every
  record read is a stored record that satisfies the filter, all of them are read when they
  fit under the limit, and the calls the sweep makes are calls for records of that batch,
  whatever the crew is.
\<close>

theorem followup_sweep_selects_due:
  assumes "reachable (store w)"
  shows "\<exists>rs. find_followups_due limit now (store w) = Inr rs \<and> length rs \<le> limit \<and>
           (\<forall>r \<in> set rs. r \<in> set (health_records (store w)) \<and> is_followup_due now r) \<and>
           (length (filter (is_followup_due now) (health_records (store w))) \<le> limit \<longrightarrow>
              rs = filter (is_followup_due now) (health_records (store w))) \<and>
           (\<exists>ds. subseq ds (due_batch now (store w)) \<and> length (due_batch now (store w)) \<le> 50 \<and>
              invocations (snd (run_scheduled_followups get_health_crew now w)) =
                invocations w @ followup_calls now ds)"
proof -
  let ?due = "filter (is_followup_due now) (health_records (store w))"
  have found: "find_followups_due limit now (store w) = Inr (take limit ?due)"
    using assms by (simp add: find_followups_due_def)
  have sel: "\<forall>r \<in> set (take limit ?due). r \<in> set (health_records (store w)) \<and> is_followup_due now r"
  proof
    fix r assume "r \<in> set (take limit ?due)"
    then have "r \<in> set ?due" by (rule in_set_takeD)
    then show "r \<in> set (health_records (store w)) \<and> is_followup_due now r" by simp
  qed
  have "\<exists>ds. subseq ds (due_batch now (store w)) \<and>
          invocations (snd (run_scheduled_followups get_health_crew now w)) =
            invocations w @ followup_calls now ds"
  proof (cases get_health_crew)
    case (Inl e)
    have "invocations (snd (run_scheduled_followups get_health_crew now w)) =
          invocations w @ followup_calls now []"
      using Inl assms
      by (simp add: run_scheduled_followups_def Let_def find_followups_due_reachable)
    then show ?thesis by (intro exI [of _ "[]"]) simp
  next
    case (Inr crew)
    show ?thesis
    proof (cases "execute_followup_check crew")
      case None
      have "invocations (snd (run_scheduled_followups get_health_crew now w)) =
            invocations w @ followup_calls now []"
        using Inr assms fold_followup_no_method [OF None, of now]
        by (simp add: sweep_world)
      then show ?thesis by (intro exI [of _ "[]"]) simp
    next
      case (Some m)
      have "invocations (snd (run_scheduled_followups get_health_crew now w)) =
            invocations w @ followup_calls now (due_batch now (store w))"
        using Inr sweep_invocations [OF assms Some] by simp
      then show ?thesis by (intro exI [of _ "due_batch now (store w)"]) simp
    qed
  qed
  then obtain ds where ds: "subseq ds (due_batch now (store w))"
      "invocations (snd (run_scheduled_followups get_health_crew now w)) =
         invocations w @ followup_calls now ds"
    by (elim exE conjE)
  have cap: "length (due_batch now (store w)) \<le> 50"
    by (simp add: due_batch_def)
  have len: "length (take limit ?due) \<le> limit"
    by simp
  have all: "length ?due \<le> limit \<longrightarrow> take limit ?due = ?due"
    by simp
  have inner: "\<exists>ds. subseq ds (due_batch now (store w)) \<and> length (due_batch now (store w)) \<le> 50 \<and>
          invocations (snd (run_scheduled_followups get_health_crew now w)) =
            invocations w @ followup_calls now ds"
    using ds cap by (intro exI [of _ ds] conjI)
  show ?thesis
  proof (rule exI [of _ "take limit ?due"], intro conjI)
    show "find_followups_due limit now (store w) = Inr (take limit ?due)" by (rule found)
    show "length (take limit ?due) \<le> limit" by (rule len)
    show "\<forall>r \<in> set (take limit ?due). r \<in> set (health_records (store w)) \<and> is_followup_due now r"
      by (rule sel)
    show "length ?due \<le> limit \<longrightarrow> take limit ?due = ?due" by (rule all)
    show "\<exists>ds. subseq ds (due_batch now (store w)) \<and> length (due_batch now (store w)) \<le> 50 \<and>
          invocations (snd (run_scheduled_followups get_health_crew now w)) =
            invocations w @ followup_calls now ds" by (rule inner)
  qed
qed

theorem followup_sweep_selects_due_witness:
  "reachable (store ward) \<and>
   find_followups_due 2 10 (store ward) = Inr [rec_a, rec_anon] \<and>
   is_followup_due 10 rec_a \<and> is_followup_due 10 rec_anon \<and>
   length (due_batch 10 (store ward)) \<le> 50"
proof -
  have r: "reachable (store ward)"
    by (simp add: ward_def)
  have f: "find_followups_due 2 10 (store ward) = Inr [rec_a, rec_anon]"
    by (simp add: find_followups_due_def is_followup_due_def example_defs)
  from followup_sweep_selects_due [OF r, of 2 10 "Inr sending_crew"]
  obtain rs where rs: "find_followups_due 2 10 (store ward) = Inr rs"
    and sel: "\<forall>r \<in> set rs. r \<in> set (health_records (store ward)) \<and> is_followup_due 10 r"
    and cap: "length (due_batch 10 (store ward)) \<le> 50"
    by (elim exE conjE)
  have "rs = [rec_a, rec_anon]"
    using rs f by simp
  with sel have "is_followup_due 10 rec_a" "is_followup_due 10 rec_anon"
    by simp_all
  with r f cap show ?thesis
    by (intro conjI)
qed

text \<open>
  Claim C4 fails as stated: the query asks for no sort. The counterexample is a store
  that returns a record due at 5 before records due at 4 and 3: it is served first, and
  under a cap of one it is the only one served.
\<close>

theorem followup_sweep_order_counterexample:
  "find_followups_due 50 10 (store ward) = Inr [rec_a, rec_anon, rec_b] \<and>
   map hr_followup_date [rec_a, rec_anon, rec_b] = [Some 5, Some 4, Some 3] \<and>
   find_followups_due 1 10 (store ward) = Inr [rec_a] \<and>
   invocations (snd (run_scheduled_followups (Inr sending_crew) 10 ward)) =
     [followup_call_of 10 ''1001'' rec_a, followup_call_of 10 ''1002'' rec_b]"
proof (intro conjI)
  show "find_followups_due 50 10 (store ward) = Inr [rec_a, rec_anon, rec_b]"
    by (simp add: find_followups_due_def is_followup_due_def example_defs)
  show "map hr_followup_date [rec_a, rec_anon, rec_b] = [Some 5, Some 4, Some 3]"
    by (simp add: example_defs)
  show "find_followups_due 1 10 (store ward) = Inr [rec_a]"
    by (simp add: find_followups_due_def is_followup_due_def example_defs)
  show "invocations (snd (run_scheduled_followups (Inr sending_crew) 10 ward)) =
     [followup_call_of 10 ''1001'' rec_a, followup_call_of 10 ''1002'' rec_b]"
    by (simp add: sweep_defs example_defs)
qed

text \<open>
  Claim C4, as the code has it. The batch is the first \<open>limit\<close> due records in the
  order the store returns them, a subsequence of the collection, and the sweep serves its
  batch in that order.
\<close>

theorem followup_sweep_store_order:
  assumes "find_followups_due limit now (store w) = Inr rs"
    and "execute_followup_check crew = Some m"
  shows "subseq rs (health_records (store w)) \<and>
         prefix rs (filter (is_followup_due now) (health_records (store w))) \<and>
         invocations (snd (run_scheduled_followups (Inr crew) now w)) =
           invocations w @ followup_calls now (due_batch now (store w))"
proof -
  let ?due = "filter (is_followup_due now) (health_records (store w))"
  have r: "reachable (store w)"
    using assms(1) by (simp add: find_followups_due_def split: if_splits)
  then have rs: "rs = take limit ?due"
    using assms(1) by (simp add: find_followups_due_def)
  have p: "prefix rs ?due"
    unfolding rs by (rule take_is_prefix)
  then have "subseq rs ?due"
    by (rule prefix_imp_subseq)
  moreover have "subseq ?due (health_records (store w))"
    by simp
  ultimately have s: "subseq rs (health_records (store w))"
    by (rule subseq_order.trans)
  from s p sweep_invocations [OF r assms(2)] show ?thesis
    by (intro conjI)
qed

theorem followup_sweep_store_order_witness:
  "find_followups_due 1 10 (store ward) = Inr [rec_a] \<and>
   execute_followup_check sending_crew = Some send_ok \<and>
   subseq [rec_a] (health_records (store ward)) \<and>
   invocations (snd (run_scheduled_followups (Inr sending_crew) 10 ward)) =
     invocations ward @ followup_calls 10 [rec_a, rec_anon, rec_b]"
proof -
  have f: "find_followups_due 1 10 (store ward) = Inr [rec_a]"
    by (simp add: find_followups_due_def is_followup_due_def example_defs)
  have m: "execute_followup_check sending_crew = Some send_ok"
    by (simp add: sending_crew_def)
  from followup_sweep_store_order [OF f m] f m show ?thesis
    by (simp only: ward_batch simp_thms)
qed

text \<open>
  Claim C5 fails as stated. \<^verbatim>\<open>run_scheduled_followups\<close> returns
  \<^verbatim>\<open>None\<close> on every path and keeps no counts. The counterexample is a run in
  which one notification fails and one record has no \<^verbatim>\<open>telegram_id\<close>: the
  result is \<^verbatim>\<open>None\<close>, not a summary, and the record without identity is
  still due in the store the run leaves.
\<close>

theorem followup_sweep_summary_counterexample:
  "fst (run_scheduled_followups (Inr flaky_crew) 10 ward) = PyNone \<and>
   \<not> is_sweep_summary (fst (run_scheduled_followups (Inr flaky_crew) 10 ward)) \<and>
   skipped rec_anon \<and>
   find_followups_due 50 10 (store (snd (run_scheduled_followups (Inr flaky_crew) 10 ward))) =
     Inr [rec_a, rec_anon, rec_b]"
proof (intro conjI)
  show n: "fst (run_scheduled_followups (Inr flaky_crew) 10 ward) = PyNone"
    by (rule sweep_returns_None)
  show "\<not> is_sweep_summary (fst (run_scheduled_followups (Inr flaky_crew) 10 ward))"
    unfolding n by (simp add: is_sweep_summary_def)
  show "skipped rec_anon"
    by (simp add: skipped_def rec_anon_def)
  have "store (snd (run_scheduled_followups (Inr flaky_crew) 10 ward)) = store ward"
    by (rule sweep_store [where m = send_flaky])
       (simp_all add: ward_def flaky_crew_def send_flaky_def)
  then show "find_followups_due 50 10
       (store (snd (run_scheduled_followups (Inr flaky_crew) 10 ward))) =
     Inr [rec_a, rec_anon, rec_b]"
    by (simp add: find_followups_due_def is_followup_due_def example_defs)
qed

text \<open>
  Claim C5, as the code has it. The run returns \<^verbatim>\<open>None\<close>. Take any record
  \<open>r\<close> of the batch, with the records before and after it, and the state \<open>v\<close> in
  which the loop reaches it. Whatever happens for \<open>r\<close>, the run goes on with the
  records after it. If \<open>r\<close> has no \<^verbatim>\<open>telegram_id\<close>, the warning is logged
  and nothing else changes: no call, no write. Otherwise, with a crew that has the
  method, the notifier is called once for \<open>r\<close> on the store of \<open>v\<close>, the store is
  the one the call leaves, and one line is logged: the error line with the exception
  when the call raised, the line \<^verbatim>\<open>Follow-up sent\<close> when it returned. With a crew
  without the method, which the class of \<^verbatim>\<open>crew/health_crew.py\<close> is, the
  \<^verbatim>\<open>AttributeError\<close> of the call is logged by the same handler and nothing else
  changes. So the notifier is called for every record of the batch that carries a
  \<^verbatim>\<open>telegram_id\<close>, in order, when there is one, and never otherwise.
\<close>

theorem followup_sweep_contains_failures:
  assumes "find_followups_due 50 now (store w) = Inr (before @ r # after)"
  shows "fst (run_scheduled_followups (Inr crew) now w) = PyNone \<and>
    (case execute_followup_check crew of
       None \<Rightarrow> invocations (snd (run_scheduled_followups (Inr crew) now w)) = invocations w
     | Some m \<Rightarrow> invocations (snd (run_scheduled_followups (Inr crew) now w)) =
         invocations w @ followup_calls now (before @ r # after)) \<and>
    (let v = fold (followup_one crew now) before
               (sweep_started (length (before @ r # after)) w);
         v' = followup_one crew now r v
     in snd (run_scheduled_followups (Inr crew) now w) = fold (followup_one crew now) after v' \<and>
        (skipped r \<longrightarrow>
           v' = log_line WARNING [Lit ''Skipping follow-up without telegram_id''] v) \<and>
        (\<forall>t. hr_telegram_id r = Some t \<and> t \<noteq> [] \<longrightarrow>
           (case execute_followup_check crew of
              None \<Rightarrow>
                v' = log_line ERROR
                       [Lit ''Error sending follow-up to user '', FOpt (Some t), Lit '': '',
                        FExn (no_attribute ''HealthCrew'' ''execute_followup_check'')] v
            | Some m \<Rightarrow>
                invocations v' = invocations v @ [followup_call_of now t r] \<and>
                store v' = snd (m (followup_call_of now t r) (store v)) \<and>
                logs v' = logs v @
                  [case fst (m (followup_call_of now t r) (store v)) of
                     Inl e \<Rightarrow>
                       (ERROR, [Lit ''Error sending follow-up to user '', FOpt (Some t),
                                Lit '': '', FExn e])
                   | Inr u \<Rightarrow> (INFO, [Lit (check_mark @ '' Follow-up sent to ''), FStr t])])))"
proof -
  let ?rs = "before @ r # after"
  let ?v = "fold (followup_one crew now) before (sweep_started (length ?rs) w)"
  let ?v' = "followup_one crew now r ?v"
  have reach: "reachable (store w)"
    using assms by (simp add: find_followups_due_def split: if_splits)
  then have batch: "due_batch now (store w) = ?rs"
    using assms by (simp add: find_followups_due_reachable)
  have none: "fst (run_scheduled_followups (Inr crew) now w) = PyNone"
    by (rule sweep_returns_None)
  have run: "snd (run_scheduled_followups (Inr crew) now w) =
      fold (followup_one crew now) after ?v'"
    using sweep_world [OF reach, of crew now] unfolding batch
    by (simp add: sweep_started_def)
  have calls: "(case execute_followup_check crew of
       None \<Rightarrow> invocations (snd (run_scheduled_followups (Inr crew) now w)) = invocations w
     | Some m \<Rightarrow> invocations (snd (run_scheduled_followups (Inr crew) now w)) =
         invocations w @ followup_calls now ?rs)"
  proof (cases "execute_followup_check crew")
    case None
    have "invocations (fold (followup_one crew now) ?rs (sweep_started (length ?rs) w)) =
        invocations (sweep_started (length ?rs) w)"
      using fold_followup_no_method [OF None] by (rule conjunct1)
    then have "invocations (snd (run_scheduled_followups (Inr crew) now w)) = invocations w"
      unfolding run by (simp add: sweep_started_def)
    with None show ?thesis by simp
  next
    case (Some m)
    have "invocations (snd (run_scheduled_followups (Inr crew) now w)) =
        invocations w @ followup_calls now (due_batch now (store w))"
      using reach Some by (rule sweep_invocations)
    with Some show ?thesis unfolding batch by simp
  qed
  have skip: "skipped r \<longrightarrow>
      ?v' = log_line WARNING [Lit ''Skipping follow-up without telegram_id''] ?v"
    by (simp add: followup_one_skipped)
  have served: "\<forall>t. hr_telegram_id r = Some t \<and> t \<noteq> [] \<longrightarrow>
           (case execute_followup_check crew of
              None \<Rightarrow>
                ?v' = log_line ERROR
                       [Lit ''Error sending follow-up to user '', FOpt (Some t), Lit '': '',
                        FExn (no_attribute ''HealthCrew'' ''execute_followup_check'')] ?v
            | Some m \<Rightarrow>
                invocations ?v' = invocations ?v @ [followup_call_of now t r] \<and>
                store ?v' = snd (m (followup_call_of now t r) (store ?v)) \<and>
                logs ?v' = logs ?v @
                  [case fst (m (followup_call_of now t r) (store ?v)) of
                     Inl e \<Rightarrow>
                       (ERROR, [Lit ''Error sending follow-up to user '', FOpt (Some t),
                                Lit '': '', FExn e])
                   | Inr u \<Rightarrow> (INFO, [Lit (check_mark @ '' Follow-up sent to ''), FStr t])])"
  proof (intro allI impI)
    fix t
    assume t: "hr_telegram_id r = Some t \<and> t \<noteq> []"
    show "(case execute_followup_check crew of
              None \<Rightarrow>
                ?v' = log_line ERROR
                       [Lit ''Error sending follow-up to user '', FOpt (Some t), Lit '': '',
                        FExn (no_attribute ''HealthCrew'' ''execute_followup_check'')] ?v
            | Some m \<Rightarrow>
                invocations ?v' = invocations ?v @ [followup_call_of now t r] \<and>
                store ?v' = snd (m (followup_call_of now t r) (store ?v)) \<and>
                logs ?v' = logs ?v @
                  [case fst (m (followup_call_of now t r) (store ?v)) of
                     Inl e \<Rightarrow>
                       (ERROR, [Lit ''Error sending follow-up to user '', FOpt (Some t),
                                Lit '': '', FExn e])
                   | Inr u \<Rightarrow> (INFO, [Lit (check_mark @ '' Follow-up sent to ''), FStr t])])"
    proof (cases "execute_followup_check crew")
      case None
      with t show ?thesis by (simp add: followup_one_no_method)
    next
      case (Some m)
      with t followup_one_called [of r t crew m now ?v] show ?thesis by simp
    qed
  qed
  from run skip served have "let v = ?v; v' = followup_one crew now r v
     in snd (run_scheduled_followups (Inr crew) now w) = fold (followup_one crew now) after v' \<and>
        (skipped r \<longrightarrow>
           v' = log_line WARNING [Lit ''Skipping follow-up without telegram_id''] v) \<and>
        (\<forall>t. hr_telegram_id r = Some t \<and> t \<noteq> [] \<longrightarrow>
           (case execute_followup_check crew of
              None \<Rightarrow>
                v' = log_line ERROR
                       [Lit ''Error sending follow-up to user '', FOpt (Some t), Lit '': '',
                        FExn (no_attribute ''HealthCrew'' ''execute_followup_check'')] v
            | Some m \<Rightarrow>
                invocations v' = invocations v @ [followup_call_of now t r] \<and>
                store v' = snd (m (followup_call_of now t r) (store v)) \<and>
                logs v' = logs v @
                  [case fst (m (followup_call_of now t r) (store v)) of
                     Inl e \<Rightarrow>
                       (ERROR, [Lit ''Error sending follow-up to user '', FOpt (Some t),
                                Lit '': '', FExn e])
                   | Inr u \<Rightarrow> (INFO, [Lit (check_mark @ '' Follow-up sent to ''), FStr t])]))"
    unfolding Let_def by (intro conjI)
  with none calls show ?thesis
    by (intro conjI)
qed

theorem followup_sweep_contains_failures_witness:
  "find_followups_due 50 10 (store ward) = Inr ([] @ rec_a # [rec_anon, rec_b]) \<and>
   hr_telegram_id rec_a = Some ''1001'' \<and>
   fst (send_flaky (followup_call_of 10 ''1001'' rec_a) (store ward)) =
     Inl (Exception ''timed out'') \<and>
   fst (run_scheduled_followups (Inr flaky_crew) 10 ward) = PyNone \<and>
   invocations (snd (run_scheduled_followups (Inr flaky_crew) 10 ward)) =
     [followup_call_of 10 ''1001'' rec_a, followup_call_of 10 ''1002'' rec_b] \<and>
   logs (followup_one flaky_crew 10 rec_a
           (sweep_started (length [rec_a, rec_anon, rec_b]) ward)) =
     logs (sweep_started (length [rec_a, rec_anon, rec_b]) ward) @
       [(ERROR, [Lit ''Error sending follow-up to user '', FOpt (Some ''1001''), Lit '': '',
                 FExn (Exception ''timed out'')])] \<and>
   logs (snd (run_scheduled_followups (Inr flaky_crew) 10 ward)) =
     [(INFO, [Lit (alarm_clock @ '' Checking for scheduled follow-ups...'')]),
      (INFO, [Lit ''Found '', FNat 3, Lit '' follow-ups due'']),
      (ERROR, [Lit ''Error sending follow-up to user '', FOpt (Some ''1001''), Lit '': '',
               FExn (Exception ''timed out'')]),
      (WARNING, [Lit ''Skipping follow-up without telegram_id'']),
      (INFO, [Lit (check_mark @ '' Follow-up sent to ''), FStr ''1002''])]"
proof -
  have f: "find_followups_due 50 10 (store ward) = Inr ([] @ rec_a # [rec_anon, rec_b])"
    by (simp add: find_followups_due_def is_followup_due_def example_defs)
  have t: "hr_telegram_id rec_a = Some ''1001''"
    by (simp add: rec_a_def)
  have e: "fst (send_flaky (followup_call_of 10 ''1001'' rec_a) (store ward)) =
      Inl (Exception ''timed out'')"
    by (simp add: send_flaky_def followup_call_of_def)
  have c: "followup_calls 10 ([] @ rec_a # [rec_anon, rec_b]) =
      [followup_call_of 10 ''1001'' rec_a, followup_call_of 10 ''1002'' rec_b]"
    by (simp add: rec_a_def rec_b_def rec_anon_def)
  have w0: "invocations ward = []"
    by (simp add: ward_def)
  have l: "logs (snd (run_scheduled_followups (Inr flaky_crew) 10 ward)) =
     [(INFO, [Lit (alarm_clock @ '' Checking for scheduled follow-ups...'')]),
      (INFO, [Lit ''Found '', FNat 3, Lit '' follow-ups due'']),
      (ERROR, [Lit ''Error sending follow-up to user '', FOpt (Some ''1001''), Lit '': '',
               FExn (Exception ''timed out'')]),
      (WARNING, [Lit ''Skipping follow-up without telegram_id'']),
      (INFO, [Lit (check_mark @ '' Follow-up sent to ''), FStr ''1002''])]"
    by (simp add: sweep_defs example_defs)
  have s: "logs (followup_one flaky_crew 10 rec_a
           (sweep_started (length [rec_a, rec_anon, rec_b]) ward)) =
     logs (sweep_started (length [rec_a, rec_anon, rec_b]) ward) @
       [(ERROR, [Lit ''Error sending follow-up to user '', FOpt (Some ''1001''), Lit '': '',
                 FExn (Exception ''timed out'')])]"
    using followup_sweep_contains_failures [OF f, of flaky_crew] t
    by (simp add: Let_def flaky_crew_def send_flaky_def followup_call_of_def)
  from followup_sweep_contains_failures [OF f, of flaky_crew]
  have "fst (run_scheduled_followups (Inr flaky_crew) 10 ward) = PyNone"
    and "invocations (snd (run_scheduled_followups (Inr flaky_crew) 10 ward)) =
      invocations ward @ followup_calls 10 ([] @ rec_a # [rec_anon, rec_b])"
    by (simp_all add: flaky_crew_def)
  with f t e l s show ?thesis
    unfolding c w0 by (intro conjI) simp_all
qed

text \<open>
  Claim C1 fails as stated. The sweep dispatches and never writes
  \<^verbatim>\<open>followup_completed\<close>. The counterexample is one run on a store with due
  records and a notifier that sends: the users are notified, and after the run the
  records are as they were, \<^verbatim>\<open>followup_completed\<close> still false on a record that
  was notified. With the class of \<^verbatim>\<open>crew/health_crew.py\<close> itself no
  notification is made at all, and the store is as it was likewise.
\<close>

theorem followup_sweep_exactly_once_counterexample:
  "is_followup_due 10 rec_a \<and>
   health_records (store (snd (run_scheduled_followups (Inr sending_crew) 10 ward))) =
     [rec_a, rec_done, rec_anon, rec_b, rec_later] \<and>
   hr_followup_completed rec_a = False \<and>
   invocations (snd (run_scheduled_followups (Inr sending_crew) 10 ward)) =
     [followup_call_of 10 ''1001'' rec_a, followup_call_of 10 ''1002'' rec_b] \<and>
   invocations (snd (run_scheduled_followups (Inr HealthCrew) 10 ward)) = [] \<and>
   store (snd (run_scheduled_followups (Inr HealthCrew) 10 ward)) = store ward"
proof -
  let ?w1 = "snd (run_scheduled_followups (Inr sending_crew) 10 ward)"
  have r: "reachable (store ward)"
    by (simp add: ward_def)
  have m: "execute_followup_check sending_crew = Some send_ok"
    by (simp add: sending_crew_def)
  have p: "\<And>c d. snd (send_ok c d) = d"
    by (simp add: send_ok_def)
  have c: "followup_calls 10 [rec_a, rec_anon, rec_b] =
      [followup_call_of 10 ''1001'' rec_a, followup_call_of 10 ''1002'' rec_b]"
    by (simp add: rec_a_def rec_b_def rec_anon_def)
  have s1: "store ?w1 = store ward"
    using r m p by (rule sweep_store)
  have i1: "invocations ?w1 =
      [followup_call_of 10 ''1001'' rec_a, followup_call_of 10 ''1002'' rec_b]"
    using sweep_invocations [OF r m, of 10] unfolding ward_batch c
    by (simp add: ward_def)
  have n: "execute_followup_check HealthCrew = None"
    by (simp add: HealthCrew_def)
  have nb: "due_batch 10 (store ward) \<noteq> []"
    unfolding ward_batch by simp
  have h0: "invocations (snd (run_scheduled_followups (Inr HealthCrew) 10 ward)) =
        invocations ward \<and>
      store (snd (run_scheduled_followups (Inr HealthCrew) 10 ward)) = store ward"
    using fold_followup_no_method [OF n, of 10] nb
    by (simp add: sweep_world [OF r])
  have "invocations ward = []"
    by (simp add: ward_def)
  with h0 have h: "invocations (snd (run_scheduled_followups (Inr HealthCrew) 10 ward)) = [] \<and>
      store (snd (run_scheduled_followups (Inr HealthCrew) 10 ward)) = store ward"
    by simp
  have d: "is_followup_due 10 rec_a"
    by (simp add: is_followup_due_def rec_a_def)
  have hs: "health_records (store ?w1) = [rec_a, rec_done, rec_anon, rec_b, rec_later]"
    unfolding s1 by (simp add: ward_def)
  have f: "hr_followup_completed rec_a = False"
    by (simp add: rec_a_def)
  from d hs f i1 h show ?thesis
    by (intro conjI) simp_all
qed

text \<open>
  Claim C1, as the code has it. With a crew that has the method, a run whose query is
  answered calls the notifier once for each record of the batch that carries a
  \<^verbatim>\<open>telegram_id\<close>, in batch order, and makes no other call. The sweep writes
  nothing of its own: if the notifier leaves the store as it is, so does the run, and
  every record of the batch is still stored and still due after it, with
  \<^verbatim>\<open>followup_completed\<close> false.
\<close>

theorem followup_sweep_writes_nothing:
  assumes "reachable (store w)"
    and "execute_followup_check crew = Some m"
    and "\<forall>c d. snd (m c d) = d"
  shows "store (snd (run_scheduled_followups (Inr crew) now w)) = store w \<and>
         invocations (snd (run_scheduled_followups (Inr crew) now w)) =
           invocations w @ followup_calls now (due_batch now (store w)) \<and>
         (\<forall>r \<in> set (due_batch now (store w)).
            r \<in> set (health_records (store (snd (run_scheduled_followups (Inr crew) now w)))) \<and>
            is_followup_due now r \<and> hr_followup_completed r = False)"
proof -
  let ?w1 = "snd (run_scheduled_followups (Inr crew) now w)"
  have pres: "\<And>c d. snd (m c d) = d"
    using assms(3) by simp
  have s1: "store ?w1 = store w"
    using assms(1,2) pres by (rule sweep_store)
  have i1: "invocations ?w1 = invocations w @ followup_calls now (due_batch now (store w))"
    using assms(1,2) by (rule sweep_invocations)
  have due: "\<forall>r \<in> set (due_batch now (store w)).
      r \<in> set (health_records (store ?w1)) \<and> is_followup_due now r \<and>
      hr_followup_completed r = False"
  proof
    fix r
    assume "r \<in> set (due_batch now (store w))"
    then have "r \<in> set (filter (is_followup_due now) (health_records (store w)))"
      unfolding due_batch_def by (rule in_set_takeD)
    then have "r \<in> set (health_records (store w))" and d: "is_followup_due now r"
      by simp_all
    moreover from d have "hr_followup_completed r = False"
      by (simp add: is_followup_due_def)
    ultimately show "r \<in> set (health_records (store ?w1)) \<and> is_followup_due now r \<and>
        hr_followup_completed r = False"
      unfolding s1 by (intro conjI)
  qed
  from s1 i1 due show ?thesis
    by (intro conjI)
qed

theorem followup_sweep_writes_nothing_witness:
  "reachable (store ward) \<and> execute_followup_check sending_crew = Some send_ok \<and>
   (\<forall>c d. snd (send_ok c d) = d) \<and>
   store (snd (run_scheduled_followups (Inr sending_crew) 10 ward)) = store ward \<and>
   invocations (snd (run_scheduled_followups (Inr sending_crew) 10 ward)) =
     [followup_call_of 10 ''1001'' rec_a, followup_call_of 10 ''1002'' rec_b] \<and>
   rec_a \<in> set (health_records (store (snd (run_scheduled_followups (Inr sending_crew) 10 ward)))) \<and>
   is_followup_due 10 rec_a"
proof -
  have r: "reachable (store ward)"
    by (simp add: ward_def)
  have m: "execute_followup_check sending_crew = Some send_ok"
    by (simp add: sending_crew_def)
  have p: "\<forall>c d. snd (send_ok c d) = d"
    by (simp add: send_ok_def)
  have c: "invocations ward @ followup_calls 10 [rec_a, rec_anon, rec_b] =
      [followup_call_of 10 ''1001'' rec_a, followup_call_of 10 ''1002'' rec_b]"
    by (simp add: ward_def rec_a_def rec_b_def rec_anon_def)
  have h: "health_records (store ward) = [rec_a, rec_done, rec_anon, rec_b, rec_later]"
    by (simp add: ward_def)
  from followup_sweep_writes_nothing [OF r m p, of 10] r m p show ?thesis
    unfolding ward_batch c by (intro conjI) (simp_all add: h)
qed

section \<open>Properties of the surveillance job\<close>

text \<open>
  Claim C2. Every surveillance run is to persist exactly one SurveillanceLog. The job
  asks the object that \<^verbatim>\<open>get_health_crew()\<close> returns for
  \<^verbatim>\<open>run_surveillance_analysis\<close>, and the class \<^verbatim>\<open>HealthCrew\<close> of
  \<^verbatim>\<open>crew/health_crew.py\<close> defines no such method. So on every run, from any
  state and for any window, the call raises \<^verbatim>\<open>AttributeError\<close>, the handler logs
  it as an error, and the run ends with the store as it was: no SurveillanceLog is
  added, where the claim has exactly one.
\<close>

theorem surveillance_run_without_analysis:
  "run_scheduled_surveillance (Inr HealthCrew) hours w =
     (PyNone,
      w\<lparr>logs := logs w @
         [(INFO, [Lit (alarm_clock @ '' Running scheduled surveillance analysis...'')]),
          (ERROR, [Lit (cross_mark @ '' Error in scheduled surveillance: ''),
                   FExn (no_attribute ''HealthCrew'' ''run_surveillance_analysis'')])]\<rparr>) \<and>
   store (snd (run_scheduled_surveillance (Inr HealthCrew) hours w)) = store w \<and>
   surveillance_logs (store (snd (run_scheduled_surveillance (Inr HealthCrew) hours w))) =
     surveillance_logs (store w)"
  by (simp add: run_scheduled_surveillance_def surveillance_error_def log_line_def Let_def
      HealthCrew_def)

theorem surveillance_run_without_analysis_witness:
  "surveillance_logs (store (snd (run_scheduled_surveillance (Inr HealthCrew) 24 ward))) = [] \<and>
   fst (run_scheduled_surveillance (Inr HealthCrew) 24 ward) = PyNone \<and>
   logs (snd (run_scheduled_surveillance (Inr HealthCrew) 24 ward)) =
     [(INFO, [Lit (alarm_clock @ '' Running scheduled surveillance analysis...'')]),
      (ERROR, [Lit (cross_mark @ '' Error in scheduled surveillance: ''),
               FExn (AttributeError (quoted ''HealthCrew'' @ '' object has no attribute '' @
                                     quoted ''run_surveillance_analysis''))])]"
  using surveillance_run_without_analysis [of 24 ward]
  by (simp add: ward_def no_attribute_def)

section \<open>Properties of the job scheduler\<close>

text \<open>
  Claim C9. \<^verbatim>\<open>start_scheduler\<close> on a process whose scheduler is set logs the
  warning and returns: the scheduler object with its jobs is the one that was there, no
  second exit handler is registered, and nothing else of the process changes.
\<close>

theorem start_scheduler_reentrant:
  assumes "scheduler p = Some s"
  shows "start_scheduler minutes p =
           p\<lparr>process_logs := process_logs p @ [(WARNING, [Lit ''Scheduler already running''])]\<rparr> \<and>
         scheduler (start_scheduler minutes p) = Some s \<and>
         atexit_registered (start_scheduler minutes p) = atexit_registered p"
  using assms by (simp add: start_scheduler_def)

theorem start_scheduler_reentrant_witness:
  "scheduler (start_scheduler 15 fresh_process) =
     Some \<lparr>jobs = [\<lparr>job_func = Run_scheduled_surveillance, job_minutes = 15,
                     job_id = ''surveillance_job'', job_name = ''Run surveillance analysis''\<rparr>,
                   \<lparr>job_func = Run_scheduled_followups, job_minutes = 15,
                     job_id = ''followup_job'', job_name = ''Check scheduled follow-ups''\<rparr>],
           running = True\<rparr> \<and>
   scheduler (start_scheduler 30 (start_scheduler 15 fresh_process)) =
     scheduler (start_scheduler 15 fresh_process) \<and>
   atexit_registered (start_scheduler 30 (start_scheduler 15 fresh_process)) = 1 \<and>
   process_logs (start_scheduler 30 (start_scheduler 15 fresh_process)) =
     process_logs (start_scheduler 15 fresh_process) @
       [(WARNING, [Lit ''Scheduler already running''])]"
proof -
  have s: "scheduler (start_scheduler 15 fresh_process) =
     Some \<lparr>jobs = [\<lparr>job_func = Run_scheduled_surveillance, job_minutes = 15,
                     job_id = ''surveillance_job'', job_name = ''Run surveillance analysis''\<rparr>,
                   \<lparr>job_func = Run_scheduled_followups, job_minutes = 15,
                     job_id = ''followup_job'', job_name = ''Check scheduled follow-ups''\<rparr>],
           running = True\<rparr>"
    by (simp add: start_scheduler_def fresh_process_def add_job_def Let_def)
  have a: "atexit_registered (start_scheduler 15 fresh_process) = 1"
    by (simp add: start_scheduler_def fresh_process_def Let_def)
  from start_scheduler_reentrant [OF s, of 30] s a show ?thesis
    by simp
qed

section \<open>Properties of the session store\<close>

lemma foldr_max_ge: "x \<in> set ids \<Longrightarrow> x \<le> foldr max ids (0::nat)"
  by (induction ids) auto

lemma new_object_id_fresh: "x \<in> set ids \<Longrightarrow> x \<noteq> new_object_id ids"
  using foldr_max_ge [of x ids] by (simp add: new_object_id_def)

lemma find_append_fresh:
  "(\<And>x. x \<in> set xs \<Longrightarrow> \<not> P x) \<Longrightarrow> P y \<Longrightarrow> find P (xs @ [y]) = Some y"
  by (induction xs) simp_all

lemma refetch_inserted_user:
  "insert_user t now d = (i, d') \<Longrightarrow>
   find_user_by_id i d' = Some \<lparr>u_id = i, u_telegram_id = t, u_created_at = now, u_updated_at = now\<rparr>"
proof -
  assume a: "insert_user t now d = (i, d')"
  then have i: "i = new_object_id (map u_id (users d))"
    and d': "users d' = users d @ [\<lparr>u_id = i, u_telegram_id = t, u_created_at = now,
                                     u_updated_at = now\<rparr>]"
    by (auto simp add: insert_user_def Let_def)
  have "\<And>x. x \<in> set (users d) \<Longrightarrow> \<not> u_id x = i"
    unfolding i using new_object_id_fresh [of _ "map u_id (users d)"] by auto
  then show ?thesis
    unfolding find_user_by_id_def d' by (intro find_append_fresh) simp_all
qed

lemma refetch_inserted_session:
  "insert_session uid t now d = (i, d') \<Longrightarrow>
   find_session_by_id i d' = Some (new_session_doc i uid t now)"
proof -
  assume a: "insert_session uid t now d = (i, d')"
  then have i: "i = new_object_id (map s_id (sessions d))"
    and d': "sessions d' = sessions d @ [new_session_doc i uid t now]"
    by (auto simp add: insert_session_def Let_def)
  have "\<And>x. x \<in> set (sessions d) \<Longrightarrow> \<not> s_id x = i"
    unfolding i using new_object_id_fresh [of _ "map s_id (sessions d)"] by auto
  then show ?thesis
    unfolding find_session_by_id_def d'
    by (intro find_append_fresh) (simp_all add: new_session_doc_def)
qed

lemma latest_started_None: "latest_started ss = None \<longleftrightarrow> ss = []"
  by (induction ss) (simp_all split: option.splits)

lemma latest_started_mem: "latest_started ss = Some s \<Longrightarrow> s \<in> set ss"
  by (induction ss arbitrary: s) (auto split: option.splits if_splits)

lemma find_active_session_insert_user:
  "insert_user t now d = (i, d') \<Longrightarrow> find_active_session uid d' = find_active_session uid d"
  by (auto simp add: insert_user_def Let_def find_active_session_def)

lemma user_step:
  "(case find_user t d of
      Some u \<Rightarrow> (Some u, d)
    | None \<Rightarrow> (let (inserted_id, d') = insert_user t now d
               in (find_user_by_id inserted_id d', d'))) =
   (case find_user t d of
      Some u \<Rightarrow> (Some u, d)
    | None \<Rightarrow> (Some \<lparr>u_id = session_owner t d, u_telegram_id = t, u_created_at = now,
                      u_updated_at = now\<rparr>, snd (insert_user t now d)))"
proof (cases "find_user t d")
  case None
  obtain i d' where ins: "insert_user t now d = (i, d')"
    by (cases "insert_user t now d")
  then have "i = session_owner t d"
    using None by (auto simp add: insert_user_def Let_def session_owner_def)
  then show ?thesis
    using None ins refetch_inserted_user [OF ins] by simp
next
  case (Some u)
  then show ?thesis by simp
qed

lemma sessions_insert_user: "sessions (snd (insert_user t now d)) = sessions d"
  by (simp add: insert_user_def Let_def)

lemma find_active_session_snd_insert_user:
  "find_active_session uid (snd (insert_user t now d)) = find_active_session uid d"
  by (simp add: find_active_session_def sessions_insert_user)

lemma session_step:
  "(case find_active_session uid d of
      Some s \<Rightarrow> (Session (Some s), d)
    | None \<Rightarrow> (let (inserted_id, d2) = insert_session uid t now d
               in (Session (find_session_by_id inserted_id d2), d2))) =
   (case find_active_session uid d of
      Some s \<Rightarrow> (Session (Some s), d)
    | None \<Rightarrow> (Session (Some (new_session_doc (new_object_id (map s_id (sessions d))) uid t now)),
               snd (insert_session uid t now d)))"
proof (cases "find_active_session uid d")
  case None
  obtain i d' where ins: "insert_session uid t now d = (i, d')"
    by (cases "insert_session uid t now d")
  then have "i = new_object_id (map s_id (sessions d))"
    by (auto simp add: insert_session_def Let_def)
  then show ?thesis
    using None ins refetch_inserted_session [OF ins] by simp
next
  case (Some s)
  then show ?thesis by simp
qed

lemma ensure_active_session_eq:
  "ensure_active_session t now d =
     (let d1 = (case find_user t d of Some u \<Rightarrow> d | None \<Rightarrow> snd (insert_user t now d)) in
      case find_active_session (session_owner t d) d of
        Some s \<Rightarrow> (Session (Some s), d1)
      | None \<Rightarrow>
          (Session (Some (new_session_doc (new_object_id (map s_id (sessions d)))
                      (session_owner t d) t now)),
           snd (insert_session (session_owner t d) t now d1)))"
proof (cases "find_user t d")
  case None
  show ?thesis
    unfolding ensure_active_session_def user_step session_step
    using None
    by (simp add: Let_def find_active_session_snd_insert_user sessions_insert_user
        split: option.splits)
next
  case (Some u)
  then have "session_owner t d = u_id u"
    by (simp add: session_owner_def)
  then show ?thesis
    unfolding ensure_active_session_def user_step session_step
    using Some by (simp add: Let_def split: option.splits)
qed

lemma ensure_active_session_sessions:
  "sessions (snd (ensure_active_session t now d)) =
     (case find_active_session (session_owner t d) d of
        Some s \<Rightarrow> sessions d
      | None \<Rightarrow> sessions d @ [new_session_doc (new_object_id (map s_id (sessions d)))
                                 (session_owner t d) t now])"
  unfolding ensure_active_session_eq
  by (simp add: Let_def insert_session_def sessions_insert_user split: option.splits)

lemma run_alone_refines:
  "run_alone now 6 (Find_user t) d =
     (Returned (fst (ensure_active_session t now d)), snd (ensure_active_session t now d))"
proof -
  have six: "(6::nat) = Suc (Suc (Suc (Suc (Suc (Suc 0)))))"
    by simp
  show ?thesis
  proof (cases "find_user t d")
    case None
    obtain i d' where ins: "insert_user t now d = (i, d')"
      by (cases "insert_user t now d")
    have fu: "find_user_by_id i d' = Some \<lparr>u_id = i, u_telegram_id = t, u_created_at = now,
        u_updated_at = now\<rparr>"
      by (rule refetch_inserted_user [OF ins])
    show ?thesis
    proof (cases "find_active_session i d'")
      case fa: None
      obtain j d'' where ins2: "insert_session i t now d' = (j, d'')"
        by (cases "insert_session i t now d'")
      show ?thesis
        unfolding six using None ins fu fa ins2
        by (simp add: ensure_active_session_def)
    next
      case fa: (Some s)
      show ?thesis
        unfolding six using None ins fu fa
        by (simp add: ensure_active_session_def)
    qed
  next
    case (Some u)
    show ?thesis
    proof (cases "find_active_session (u_id u) d")
      case fa: None
      obtain j d'' where ins2: "insert_session (u_id u) t now d = (j, d'')"
        by (cases "insert_session (u_id u) t now d")
      show ?thesis
        unfolding six using Some fa ins2
        by (simp add: ensure_active_session_def)
    next
      case fa: (Some s)
      show ?thesis
        unfolding six using Some fa
        by (simp add: ensure_active_session_def)
    qed
  qed
qed

lemma at_most_one_open_iff:
  "at_most_one_open d \<longleftrightarrow> (\<forall>uid. length (open_sessions_of uid d) \<le> 1)"
proof
  assume a: "at_most_one_open d"
  show "\<forall>uid. length (open_sessions_of uid d) \<le> 1"
  proof
    fix uid
    show "length (open_sessions_of uid d) \<le> 1"
    proof (cases "open_sessions_of uid d")
      case Nil
      then show ?thesis by simp
    next
      case (Cons s ss)
      then have "s \<in> set (open_sessions_of uid d)" by simp
      then have "s \<in> set (sessions d)" and "s_user_id s = uid"
        by (simp_all add: open_sessions_of_def)
      with a show ?thesis
        by (auto simp add: at_most_one_open_def list_all_iff)
    qed
  qed
next
  assume "\<forall>uid. length (open_sessions_of uid d) \<le> 1"
  then show "at_most_one_open d"
    by (simp add: at_most_one_open_def list_all_iff)
qed

lemma no_active_no_open:
  "find_active_session uid d = None \<Longrightarrow> open_sessions_of uid d = []"
  by (auto simp add: find_active_session_def latest_started_None open_sessions_of_def
      open_session_def filter_empty_conv)

lemma ensure_active_session_preserves:
  assumes "at_most_one_open d"
  shows "at_most_one_open (snd (ensure_active_session t now d))"
proof (cases "find_active_session (session_owner t d) d")
  case (Some s)
  then have "sessions (snd (ensure_active_session t now d)) = sessions d"
    by (simp add: ensure_active_session_sessions)
  then show ?thesis
    using assms by (simp add: at_most_one_open_def open_sessions_of_def)
next
  case None
  let ?new = "new_session_doc (new_object_id (map s_id (sessions d))) (session_owner t d) t now"
  have s': "sessions (snd (ensure_active_session t now d)) = sessions d @ [?new]"
    using None by (simp add: ensure_active_session_sessions)
  have none: "open_sessions_of (session_owner t d) d = []"
    using None by (rule no_active_no_open)
  have old: "\<And>uid. length (open_sessions_of uid d) \<le> 1"
    using assms by (simp add: at_most_one_open_iff)
  have "\<forall>uid. length (open_sessions_of uid (snd (ensure_active_session t now d))) \<le> 1"
  proof
    fix uid
    show "length (open_sessions_of uid (snd (ensure_active_session t now d))) \<le> 1"
    proof (cases "uid = session_owner t d")
      case True
      then show ?thesis
        using none by (simp add: open_sessions_of_def s')
    next
      case False
      then have "open_sessions_of uid (snd (ensure_active_session t now d)) = open_sessions_of uid d"
        by (simp add: open_sessions_of_def s' new_session_doc_def)
      then show ?thesis
        using old by simp
    qed
  qed
  then show ?thesis
    by (simp add: at_most_one_open_iff)
qed

lemmas session_defs = ensure_active_session_def find_user_def find_user_by_id_def
  insert_user_def find_active_session_def find_session_by_id_def new_session_doc_def
  insert_session_def new_object_id_def Session_def SessionState_values_def
  open_session_def open_sessions_of_def at_most_one_open_def session_owner_def
  office_def empty_store_def session_5_def office_busy_def turns_8_def Let_def

text \<open>
  Claim C3 fails as stated. The find and the insert of
  \<^verbatim>\<open>ensure_active_session\<close> are two awaited operations with nothing that makes
  them one. The counterexample is two calls for the same user that take turns: both find
  no session, both insert, and the user has two open sessions. From an empty store, two
  first messages of a new user leave two user documents and two sessions.
\<close>

theorem ensure_active_session_race_counterexample:
  "at_most_one_open office \<and>
   length (open_sessions_of 1
      (snd (snd (run_schedule 10 turns_8 (Find_user ''7'') (Find_user ''7'') office)))) = 2 \<and>
   \<not> at_most_one_open
      (snd (snd (run_schedule 10 turns_8 (Find_user ''7'') (Find_user ''7'') office))) \<and>
   length (users
      (snd (snd (run_schedule 10 turns_12 (Find_user ''7'') (Find_user ''7'') empty_store)))) = 2 \<and>
   length (sessions
      (snd (snd (run_schedule 10 turns_12 (Find_user ''7'') (Find_user ''7'') empty_store)))) = 2"
  by (simp add: session_defs turns_12_def)

text \<open>
  Claim C3, as the code has it. When calls run one after another, each keeps at most one open session per
  user, from any store that has the invariant and over any sequence of calls; and a call
  inserts a session only when the user has no open one, and then exactly one.
\<close>

theorem ensure_active_session_one_open:
  assumes "at_most_one_open d"
  shows "at_most_one_open (serve_all calls d) \<and>
         at_most_one_open (snd (ensure_active_session t now d)) \<and>
         (sessions (snd (ensure_active_session t now d)) = sessions d \<or>
          (open_sessions_of (session_owner t d) d = [] \<and>
           sessions (snd (ensure_active_session t now d)) =
             sessions d @ [new_session_doc (new_object_id (map s_id (sessions d)))
                             (session_owner t d) t now]))"
proof (intro conjI)
  show "at_most_one_open (serve_all calls d)"
    using assms
  proof (induction calls arbitrary: d)
    case Nil
    then show ?case by simp
  next
    case (Cons c calls)
    obtain t' now' where c: "c = (t', now')"
      by (cases c)
    have "at_most_one_open (snd (ensure_active_session t' now' d))"
      using Cons.prems by (rule ensure_active_session_preserves)
    then show ?case
      unfolding c by (simp add: Cons.IH)
  qed
  show "at_most_one_open (snd (ensure_active_session t now d))"
    using assms by (rule ensure_active_session_preserves)
  show "sessions (snd (ensure_active_session t now d)) = sessions d \<or>
          (open_sessions_of (session_owner t d) d = [] \<and>
           sessions (snd (ensure_active_session t now d)) =
             sessions d @ [new_session_doc (new_object_id (map s_id (sessions d)))
                             (session_owner t d) t now])"
  proof (cases "find_active_session (session_owner t d) d")
    case None
    then show ?thesis
      using no_active_no_open [OF None] by (simp add: ensure_active_session_sessions)
  next
    case (Some s)
    then show ?thesis
      by (simp add: ensure_active_session_sessions)
  qed
qed

theorem ensure_active_session_one_open_witness:
  "at_most_one_open office \<and>
   at_most_one_open (serve_all [(''7'', 10), (''7'', 11), (''8'', 12)] office) \<and>
   length (sessions (serve_all [(''7'', 10), (''7'', 11), (''8'', 12)] office)) = 2 \<and>
   open_sessions_of (session_owner ''7'' office) office = []"
proof -
  have a: "at_most_one_open office"
    by (simp add: session_defs)
  have l: "length (sessions (serve_all [(''7'', 10), (''7'', 11), (''8'', 12)] office)) = 2"
    by (simp add: session_defs)
  have n: "open_sessions_of (session_owner ''7'' office) office = []"
    by (simp add: session_defs)
  from ensure_active_session_one_open [OF a, where calls = "[(''7'', 10), (''7'', 11), (''8'', 12)]"
      and t = "''7''" and now = 10]
    a l n show ?thesis
    by (intro conjI) simp_all
qed

text \<open>
  Claim C7 fails as stated. \<^verbatim>\<open>ensure_active_session\<close> writes nothing to a
  session it finds. The counterexample is a user with a session last active at 5: a call
  at 10 returns that session, as stored, and the stored \<^verbatim>\<open>last_activity\<close> is
  still 5.
\<close>

theorem ensure_active_session_last_activity_counterexample:
  "fst (ensure_active_session ''7'' 10 office_busy) = Inr session_5 \<and>
   s_last_activity session_5 = 5 \<and>
   sessions (snd (ensure_active_session ''7'' 10 office_busy)) = [session_5]"
  by (simp add: session_defs)

text \<open>
  Claim C7, as the code has it. When the call finds an active session, the sessions are left as they were
  and the session found is returned; when it finds none, it appends one session, whose
  \<^verbatim>\<open>last_activity\<close> is the time of the call.
\<close>

theorem ensure_active_session_last_activity:
  "(case find_active_session (session_owner t d) d of
      Some s \<Rightarrow>
        sessions (snd (ensure_active_session t now d)) = sessions d \<and>
        fst (ensure_active_session t now d) = Session (Some s) \<and> s \<in> set (sessions d)
    | None \<Rightarrow>
        sessions (snd (ensure_active_session t now d)) =
          sessions d @ [new_session_doc (new_object_id (map s_id (sessions d)))
                          (session_owner t d) t now] \<and>
        s_last_activity (new_session_doc (new_object_id (map s_id (sessions d)))
                          (session_owner t d) t now) = now)"
proof (cases "find_active_session (session_owner t d) d")
  case None
  then show ?thesis
    by (simp add: ensure_active_session_sessions new_session_doc_def)
next
  case (Some s)
  then have "latest_started
      (filter (\<lambda>s. s_user_id s = session_owner t d \<and> s_session_state s \<noteq> ''COMPLETED'')
         (sessions d)) = Some s"
    by (simp add: find_active_session_def)
  then have "s \<in> set (filter (\<lambda>s. s_user_id s = session_owner t d \<and>
      s_session_state s \<noteq> ''COMPLETED'') (sessions d))"
    by (rule latest_started_mem)
  then have "s \<in> set (sessions d)"
    by simp
  moreover have "fst (ensure_active_session t now d) = Session (Some s)"
    using Some by (simp add: ensure_active_session_eq Let_def)
  moreover have "sessions (snd (ensure_active_session t now d)) = sessions d"
    using Some by (simp add: ensure_active_session_sessions)
  ultimately show ?thesis
    using Some by simp
qed

theorem ensure_active_session_last_activity_witness:
  "find_active_session (session_owner ''7'' office_busy) office_busy = Some session_5 \<and>
   sessions (snd (ensure_active_session ''7'' 10 office_busy)) = sessions office_busy \<and>
   find_active_session (session_owner ''7'' office) office = None \<and>
   map s_last_activity (sessions (snd (ensure_active_session ''7'' 10 office))) = [10]"
proof -
  have b: "find_active_session (session_owner ''7'' office_busy) office_busy = Some session_5"
    by (simp add: session_defs)
  have o: "find_active_session (session_owner ''7'' office) office = None"
    by (simp add: session_defs)
  have os: "sessions office = []"
    by (simp add: office_def)
  from ensure_active_session_last_activity [where t = "''7''" and d = office_busy and now = 10]
    ensure_active_session_last_activity [where t = "''7''" and d = office and now = 10] b o os
  show ?thesis
    by (simp add: new_session_doc_def)
qed

text \<open>
  Claim C8. \<^verbatim>\<open>complete\<close> never raises; it leaves the session COMPLETED, with
  \<^verbatim>\<open>completed_at\<close> stamped when it was not completed before; on a session that
  is already COMPLETED it returns the session as it is; and completing the result again,
  at any later time, changes nothing.
\<close>

theorem complete_idempotent:
  "\<exists>s'. complete_session now s = Inr s' \<and> s_session_state s' = ''completed'' \<and>
        (s_session_state s \<noteq> ''completed'' \<longrightarrow> s_completed_at s' = Some now) \<and>
        (s_session_state s = ''completed'' \<longrightarrow> s' = s) \<and>
        complete_session later s' = Inr s'"
  by (simp add: complete_session_def)

theorem complete_idempotent_witness:
  "s_session_state session_5 \<noteq> ''completed'' \<and>
   complete_session 9 session_5 =
     Inr (session_5\<lparr>s_session_state := ''completed'', s_completed_at := Some 9,
                     s_last_activity := 9\<rparr>) \<and>
   complete_session 12 (session_5\<lparr>s_session_state := ''completed'', s_completed_at := Some 9,
                     s_last_activity := 9\<rparr>) =
     Inr (session_5\<lparr>s_session_state := ''completed'', s_completed_at := Some 9,
                     s_last_activity := 9\<rparr>)"
proof -
  have n: "s_session_state session_5 \<noteq> ''completed''"
    by (simp add: session_5_def)
  then have c: "complete_session 9 session_5 =
     Inr (session_5\<lparr>s_session_state := ''completed'', s_completed_at := Some 9,
                     s_last_activity := 9\<rparr>)"
    by (simp add: complete_session_def)
  obtain s' where s': "complete_session 9 session_5 = Inr s'" "complete_session 12 s' = Inr s'"
    using complete_idempotent [of 9 session_5 12] by (elim exE conjE)
  from s' c n show ?thesis
    by simp
qed

section \<open>Properties of message processing\<close>

lemma process_body_success:
  "process_body kickoff now_iso t m sd h l = Inr reply \<Longrightarrow>
   \<exists>r. reply = PyDict [(''status'', PyStr ''success''), (''result'', PyStr r)]"
  by (auto simp add: process_body_def split: sum.splits)

lemma process_body_printable:
  assumes "\<forall>inputs. crew_printable (kickoff inputs)"
    and "process_body kickoff now_iso t m sd h l = Inl e"
  shows "is_printable e"
proof (cases "format_session sd")
  case (Inl a)
  with assms(2) have "e = Printable a" by (simp add: process_body_def)
  then show ?thesis by simp
next
  case session: (Inr session_info)
  show ?thesis
  proof (cases "format_history h")
    case (Inl a)
    with session assms(2) have "e = Printable a" by (simp add: process_body_def)
    then show ?thesis by simp
  next
    case history: (Inr history_text)
    let ?inputs = "\<lparr>ci_telegram_id = t, ci_message = m, ci_user_name = user_name_of sd,
                     ci_timestamp = now_iso, ci_session_data = session_info,
                     ci_conversation_history = history_text, ci_language = l\<rparr>"
    have p: "crew_printable (kickoff ?inputs)"
      using assms(1) by (rule spec)
    show ?thesis
    proof (cases "kickoff ?inputs")
      case (Inl a)
      with session history assms(2) have "a = e" by (simp add: process_body_def)
      with p Inl show ?thesis by (simp add: crew_printable_def)
    next
      case (Inr result)
      with session history assms(2) have "result_text result = Inl e"
        by (simp add: process_body_def split: sum.splits)
      with p Inr show ?thesis by (simp add: crew_printable_def)
    qed
  qed
qed

text \<open>
  Claim C10 fails as stated. The handler evaluates \<^verbatim>\<open>str(e)\<close> unprotected, so
  an exception whose \<^verbatim>\<open>__str__\<close> raises is not contained. The counterexample is
  a crew whose \<^verbatim>\<open>kickoff\<close> raises such an exception: the
  \<^verbatim>\<open>RuntimeError\<close> raised by \<^verbatim>\<open>str(e)\<close> in the handler propagates to the
  caller, and no dict is returned.
\<close>

theorem process_user_message_propagates_counterexample:
  "process_user_message kickoff_unprintable ''2026-11-03T10:00:00'' (PyInt 7)
     (PyStr ''fever'') PyNone PyNone (PyStr ''en'') =
     Inl (Printable (RuntimeError ''__str__ failed'')) \<and>
   (\<forall>d. process_user_message kickoff_unprintable ''2026-11-03T10:00:00'' (PyInt 7)
          (PyStr ''fever'') PyNone PyNone (PyStr ''en'') \<noteq> Inr (PyDict d))"
  by (simp add: process_user_message_def process_body_def format_session_def
      format_history_def kickoff_unprintable_def)

text \<open>
  Claim C10, as the code has it. For all arguments, and every crew whose exceptions
  (those \<^verbatim>\<open>kickoff\<close> raises and those the text of its result raises) have a
  message, \<^verbatim>\<open>process_user_message\<close> returns, and what it returns is a dict
  whose \<^verbatim>\<open>"status"\<close> is \<^verbatim>\<open>"success"\<close> with a string under
  \<^verbatim>\<open>"result"\<close>, or \<^verbatim>\<open>"error"\<close> with a string under \<^verbatim>\<open>"error"\<close>.
  For any crew, the one way out of the function other than such a dict is the exception
  that \<^verbatim>\<open>str(e)\<close> raises in the handler, when the \<^verbatim>\<open>try\<close> block ended
  with an exception \<open>e\<close> that has no message.
\<close>

theorem process_user_message_contains_printable:
  "((\<forall>inputs. crew_printable (kickoff inputs)) \<longrightarrow>
      (\<exists>d. process_user_message kickoff now_iso telegram_id message session_data
              conversation_history language = Inr (PyDict d) \<and>
            ((map_of d ''status'' = Some (PyStr ''success'') \<and>
              (\<exists>r. map_of d ''result'' = Some (PyStr r))) \<or>
             (map_of d ''status'' = Some (PyStr ''error'') \<and>
              (\<exists>e. map_of d ''error'' = Some (PyStr e)))))) \<and>
   (\<forall>raised. process_user_message kickoff now_iso telegram_id message session_data
                conversation_history language = Inl raised \<longleftrightarrow>
              process_body kickoff now_iso telegram_id message session_data
                conversation_history language = Inl (Unprintable raised))"
proof (intro conjI impI allI)
  assume printable: "\<forall>inputs. crew_printable (kickoff inputs)"
  show "\<exists>d. process_user_message kickoff now_iso telegram_id message session_data
              conversation_history language = Inr (PyDict d) \<and>
            ((map_of d ''status'' = Some (PyStr ''success'') \<and>
              (\<exists>r. map_of d ''result'' = Some (PyStr r))) \<or>
             (map_of d ''status'' = Some (PyStr ''error'') \<and>
              (\<exists>e. map_of d ''error'' = Some (PyStr e))))"
  proof (cases "process_body kickoff now_iso telegram_id message session_data
      conversation_history language")
    case (Inl e)
    with printable have "is_printable e"
      by (rule process_body_printable)
    then obtain x where "e = Printable x"
      by (cases e) simp_all
    with Inl have "process_user_message kickoff now_iso telegram_id message session_data
        conversation_history language =
        Inr (PyDict [(''status'', PyStr ''error''), (''error'', PyStr (exn_str x))])"
      by (simp add: process_user_message_def)
    then show ?thesis
      by simp
  next
    case (Inr reply)
    then obtain r where "reply = PyDict [(''status'', PyStr ''success''), (''result'', PyStr r)]"
      using process_body_success by blast
    with Inr have "process_user_message kickoff now_iso telegram_id message session_data
        conversation_history language =
        Inr (PyDict [(''status'', PyStr ''success''), (''result'', PyStr r)])"
      by (simp add: process_user_message_def)
    then show ?thesis
      by simp
  qed
next
  fix raised
  show "process_user_message kickoff now_iso telegram_id message session_data
          conversation_history language = Inl raised \<longleftrightarrow>
        process_body kickoff now_iso telegram_id message session_data
          conversation_history language = Inl (Unprintable raised)"
  proof (cases "process_body kickoff now_iso telegram_id message session_data
      conversation_history language")
    case (Inl e)
    then show ?thesis
      by (cases e) (simp_all add: process_user_message_def)
  next
    case (Inr reply)
    then show ?thesis
      by (simp add: process_user_message_def)
  qed
qed

theorem process_user_message_contains_printable_witness:
  "(\<forall>inputs. crew_printable (kickoff_rate_limited inputs)) \<and>
   process_user_message kickoff_rate_limited ''2026-11-03T10:00:00'' (PyInt 7)
     (PyStr ''fever'') PyNone PyNone (PyStr ''en'') =
     Inr (PyDict [(''status'', PyStr ''error''), (''error'', PyStr ''rate limit exceeded'')]) \<and>
   (\<forall>inputs. crew_printable (kickoff_echo inputs)) \<and>
   process_user_message kickoff_echo ''2026-11-03T10:00:00'' (PyInt 7)
     (PyStr ''fever'') (PyList [PyInt 1]) PyNone (PyStr ''en'') =
     Inr (PyDict [(''status'', PyStr ''error''),
                  (''error'', PyStr (quoted ''list'' @ '' object has no attribute '' @
                                     quoted ''get''))]) \<and>
   process_user_message kickoff_echo ''2026-11-03T10:00:00'' (PyInt 7)
     (PyStr ''fever'') PyNone (PyList [PyStr ''User: cough'']) (PyStr ''en'') =
     Inr (PyDict [(''status'', PyStr ''success''), (''result'', PyStr ''User: cough'')])"
  using process_user_message_contains_printable [of kickoff_rate_limited
      "''2026-11-03T10:00:00''" "PyInt 7" "PyStr ''fever''" PyNone PyNone "PyStr ''en''"]
  by (simp add: process_user_message_def process_body_def format_session_def
      format_history_def user_name_of_def kickoff_rate_limited_def kickoff_echo_def
      crew_printable_def result_text_def no_attribute_def join_newline_def)

end
